theory Spec2Isabelle
  imports Main "HOL-Library.Sublist"
begin

section \<open>Frames: package and function name of a stack entry\<close>

text \<open>
  A \<open>Frame\<close> embeds Go's \<open>runtime.Frame\<close>. Of its fields the package reads only
  \<open>Function\<close>, the fully qualified symbol; \<open>File\<close> and \<open>Line\<close> are carried along
  because they tell two call sites of one function apart. Go strings are byte strings
  and so are HOL's.
\<close>

record Frame =
  Function :: string
  File :: string
  Line :: int

text \<open>
  \<open>strings.HasPrefix\<close>, \<open>strings.Index\<close> and \<open>strings.LastIndex\<close> of the Go library:
  the index of the first (last) occurrence of \<open>substr\<close> in \<open>s\<close>, or \<open>-1\<close>.
\<close>

definition HasPrefix :: "string \<Rightarrow> string \<Rightarrow> bool" where
  "HasPrefix s pre = prefix pre s"

fun Index :: "string \<Rightarrow> string \<Rightarrow> int" where
  "Index [] substr = (if substr = [] then 0 else - 1)"
| "Index (c # s) substr =
     (if prefix substr (c # s) then 0
      else (let i = Index s substr in if i = - 1 then - 1 else i + 1))"

fun LastIndex :: "string \<Rightarrow> string \<Rightarrow> int" where
  "LastIndex [] substr = (if substr = [] then 0 else - 1)"
| "LastIndex (c # s) substr =
     (let i = LastIndex s substr in
      if i \<noteq> - 1 then i + 1
      else if prefix substr (c # s) then 0 else - 1)"

text \<open>
  The slice expressions \<open>s[lo:]\<close> and \<open>s[lo:hi]\<close> on a string. Every use below has
  \<open>0 \<le> lo \<le> hi \<le> len(s)\<close>, the range in which Go does not panic.
\<close>

definition slice_from :: "string \<Rightarrow> int \<Rightarrow> string" where
  "slice_from s lo = drop (nat lo) s"

definition slice :: "string \<Rightarrow> int \<Rightarrow> int \<Rightarrow> string" where
  "slice s lo hi = take (nat hi - nat lo) (drop (nat lo) s)"

definition Package :: "Frame \<Rightarrow> string" where
  "Package f =
     (if HasPrefix (Function f) ''go.'' \<or> HasPrefix (Function f) ''type.'' then ''''
      else
        (let pathend = LastIndex (Function f) ''/'';
             i = Index (slice_from (Function f) (pathend + 1)) ''.''
         in if i \<noteq> - 1 then slice (Function f) (pathend + 1) (pathend + 1 + i)
            else ''''))"

definition FuncName :: "Frame \<Rightarrow> string" where
  "FuncName f =
     (let i = LastIndex (Function f) ''.''
      in if i \<noteq> - 1 then slice_from (Function f) (i + 1) else Function f)"

section \<open>Errors, interface values and the heap\<close>

text \<open>
  A value of Go's interface type \<open>error\<close> is \<open>nil\<close> (\<open>None\<close>), a pointer to a
  \<open>baseError\<close> (\<open>BaseErr a\<close>, compared by address), or an error of another type.
  The errors of other types are modelled as the Go library makes them: an identity,
  the string their own \<open>Error()\<close> returns and at most one cause behind
  \<open>Unwrap() error\<close>, with no \<open>Is\<close> or \<open>As\<close> method of their own.
\<close>

type_synonym addr = nat

datatype errval = BaseErr addr | Foreign nat string "errval option"

type_synonym error = "errval option"

text \<open>
  \<open>Metadata\<close> is a Go map, a reference type: the field of an error holds \<open>nil\<close> or a
  reference to a map object, and copying a \<open>Metadata\<close> value copies the reference.
  A value of \<open>interface{}\<close> (a map entry, a format argument, a recovered panic) is
  \<open>any\<close>.
\<close>

type_synonym Metadata = "addr option"

datatype any = ANil | AErr errval | AStr string | AInt int | ABool bool | AMap Metadata

type_synonym StackTrace = "Frame list"

record baseError =
  cause :: error
  msg :: string
  typeStr :: string
  stacktrace :: StackTrace
  metadata :: Metadata

text \<open>
  The heap holds the \<open>baseError\<close> objects and the map objects allocated so far.
  A pointer at or beyond \<open>nobjs\<close> is not allocated: it stands for a nil
  \<open>*baseError\<close>, and reading a field through it panics.
\<close>

record heap =
  objs :: "addr \<Rightarrow> baseError"
  nobjs :: nat
  maps :: "addr \<Rightarrow> (string \<rightharpoonup> any)"
  nmaps :: nat

datatype panic = NilDereference | SliceOutOfRange | IndexOutOfRange

definition deref :: "heap \<Rightarrow> addr \<Rightarrow> panic + baseError" where
  "deref h a = (if a < nobjs h then Inr (objs h a) else Inl NilDereference)"

text \<open>
  The composite literals \<open>&baseError{...}\<close> and \<open>Metadata{...}\<close> allocate;
  \<open>Metadata{}\<close> is \<open>alloc_map h Map.empty\<close>.
\<close>

definition alloc_obj :: "heap \<Rightarrow> baseError \<Rightarrow> heap \<times> addr" where
  "alloc_obj h e = (h\<lparr>objs := (objs h)(nobjs h := e), nobjs := Suc (nobjs h)\<rparr>, nobjs h)"

definition alloc_map :: "heap \<Rightarrow> (string \<rightharpoonup> any) \<Rightarrow> heap \<times> addr" where
  "alloc_map h m = (h\<lparr>maps := (maps h)(nmaps h := m), nmaps := Suc (nmaps h)\<rparr>, nmaps h)"

text \<open>The heap before anything is allocated; every object is Go's zero value.\<close>

definition zero_baseError :: baseError where
  "zero_baseError = \<lparr>cause = None, msg = '''', typeStr = '''', stacktrace = [], metadata = None\<rparr>"

definition empty_heap :: heap where
  "empty_heap = \<lparr>objs = (\<lambda>a. zero_baseError), nobjs = 0, maps = (\<lambda>r. Map.empty), nmaps = 0\<rparr>"

text \<open>The entries of a map value; a nil map reads as empty.\<close>

definition entries :: "heap \<Rightarrow> Metadata \<Rightarrow> (string \<rightharpoonup> any)" where
  "entries h m = (case m of None \<Rightarrow> Map.empty | Some r \<Rightarrow> maps h r)"

subsection \<open>Chain traversal of the Go library\<close>

text \<open>
  \<open>errors.As(err, &baseErr)\<close> with a target of type \<open>*baseError\<close>: the first
  \<open>*baseError\<close> on the chain of \<open>err\<close>. The walk stops at it, so it only passes
  through errors of other types.
\<close>

fun As :: "error \<Rightarrow> addr option" where
  "As None = None"
| "As (Some (BaseErr a)) = Some a"
| "As (Some (Foreign i s c)) = As c"

text \<open>
  \<open>errors.Is(err, target)\<close>: the loop compares and unwraps until the chain ends.
  On a cyclic chain it does not return, which is the value \<open>None\<close>.
\<close>

partial_function (option) is_loop :: "heap \<Rightarrow> errval \<Rightarrow> errval \<Rightarrow> (panic + bool) option" where
  "is_loop h e t =
     (if e = t then Some (Inr True)
      else (case e of
              Foreign i s c \<Rightarrow>
                (case c of None \<Rightarrow> Some (Inr False) | Some e' \<Rightarrow> is_loop h e' t)
            | BaseErr a \<Rightarrow>
                (case deref h a of
                   Inl p \<Rightarrow> Some (Inl p)
                 | Inr b \<Rightarrow>
                     (case cause b of None \<Rightarrow> Some (Inr False) | Some e' \<Rightarrow> is_loop h e' t))))"

definition Is :: "heap \<Rightarrow> error \<Rightarrow> error \<Rightarrow> (panic + bool) option" where
  "Is h err target =
     (case err of
        None \<Rightarrow> Some (Inr (err = target))
      | Some e \<Rightarrow>
          (case target of None \<Rightarrow> Some (Inr (err = target)) | Some t \<Rightarrow> is_loop h e t))"

subsection \<open>Stack capture\<close>

text \<open>
  \<open>getStack\<close> reads the goroutine's call stack through \<open>runtime.Callers(3, pcs)\<close>.
  The stack is the argument \<open>cs\<close> of every function that captures one: the frames
  from the caller of the constructor outwards, innermost first, one frame per program
  counter. \<open>runtime.Callers\<close> fills the 32 slots of \<open>pcs\<close> at most.

  \<open>frames.Next()\<close> returns the next frame and whether another one follows it. The
  loop of \<open>getStack\<close> leaves before its \<open>append\<close> when none follows, so the
  outermost frame read is not stored.
\<close>

definition runtime_Callers :: "Frame list \<Rightarrow> Frame list" where
  "runtime_Callers cs = take 32 cs"

fun frames_loop :: "Frame list \<Rightarrow> StackTrace \<Rightarrow> StackTrace" where
  "frames_loop [] stack = stack"
| "frames_loop [frame] stack = stack"
| "frames_loop (frame # next # rest) stack = frames_loop (next # rest) (stack @ [frame])"

text \<open>\<open>getStack\<close> is only ever called with \<open>skip = 0\<close>; \<open>skip\<close> is a natural number here.\<close>

definition getStack :: "nat \<Rightarrow> Frame list \<Rightarrow> StackTrace" where
  "getStack skip cs =
     (let stack = frames_loop (runtime_Callers cs) []
      in if skip \<le> length stack then drop skip stack else stack)"

subsection \<open>Methods of \<open>*baseError\<close>\<close>

definition Unwrap :: "heap \<Rightarrow> addr \<Rightarrow> panic + error" where
  "Unwrap h a = (case deref h a of Inl p \<Rightarrow> Inl p | Inr e \<Rightarrow> Inr (cause e))"

definition StackTrace :: "heap \<Rightarrow> addr \<Rightarrow> panic + StackTrace" where
  "StackTrace h a = (case deref h a of Inl p \<Rightarrow> Inl p | Inr e \<Rightarrow> Inr (stacktrace e))"

text \<open>\<open>reflect.TypeOf(e).String()\<close> of a \<open>*baseError\<close> in package \<open>errors\<close>.\<close>

definition reflect_TypeOf_String :: string where
  "reflect_TypeOf_String = ''*errors.baseError''"

definition Type :: "heap \<Rightarrow> addr \<Rightarrow> panic + string" where
  "Type h a =
     (case deref h a of
        Inl p \<Rightarrow> Inl p
      | Inr e \<Rightarrow> Inr (if typeStr e \<noteq> '''' then typeStr e else reflect_TypeOf_String))"

text \<open>
  \<open>Error()\<close>, lines 99 to 118: the context and the message of the error itself,
  before the cause is appended. The \<open>%s\<close> verbs of \<open>fmt.Sprintf\<close> paste strings.
\<close>

definition contextMsg :: "baseError \<Rightarrow> string" where
  "contextMsg e =
     (let ctx = (if typeStr e \<noteq> '''' then typeStr e else '''')
      in case stacktrace e of
           [] \<Rightarrow> ctx
         | topStack # _ \<Rightarrow>
             (if ctx \<noteq> ''''
              then typeStr e @ ''@'' @ Package topStack @ ''.'' @ FuncName topStack
              else Package topStack @ ''.'' @ FuncName topStack))"

definition ownMsg :: "baseError \<Rightarrow> string" where
  "ownMsg e =
     (let m = (if contextMsg e \<noteq> '''' then contextMsg e else '''')
      in if msg e \<noteq> '''' then ''['' @ m @ ''] '' @ msg e else m)"

text \<open>
  \<open>Error()\<close> calls the \<open>Error()\<close> of the cause. On a cyclic chain the recursion does
  not return, which is the value \<open>None\<close>.
\<close>

partial_function (option) Error :: "heap \<Rightarrow> errval \<Rightarrow> (panic + string) option" where
  "Error h err =
     (case err of
        Foreign i s c \<Rightarrow> Some (Inr s)
      | BaseErr a \<Rightarrow>
          (case deref h a of
             Inl p \<Rightarrow> Some (Inl p)
           | Inr e \<Rightarrow>
               (case cause e of
                  None \<Rightarrow> Some (Inr (ownMsg e))
                | Some c \<Rightarrow>
                    Option.bind (Error h c)
                      (\<lambda>r. case r of
                              Inl p \<Rightarrow> Some (Inl p)
                            | Inr s \<Rightarrow> Some (Inr (ownMsg e @ '' => '' @ s))))))"

text \<open>
  The older \<open>errors.go\<close> of the repository has no metadata and another \<open>Error()\<close>:
  it reads \<open>e.stacktrace[0]\<close> without testing the length, and lays the string out as
  \<open>[type] package.function message: cause\<close>. It is modelled on the same objects,
  whose metadata field it does not have and does not read.
\<close>

partial_function (option) Error_old :: "heap \<Rightarrow> errval \<Rightarrow> (panic + string) option" where
  "Error_old h err =
     (case err of
        Foreign i s c \<Rightarrow> Some (Inr s)
      | BaseErr a \<Rightarrow>
          (case deref h a of
             Inl p \<Rightarrow> Some (Inl p)
           | Inr e \<Rightarrow>
               (case stacktrace e of
                  [] \<Rightarrow> Some (Inl IndexOutOfRange)
                | topStack # _ \<Rightarrow>
                    (let m = Package topStack @ ''.'' @ FuncName topStack @ '' '' @ msg e;
                         m = (if typeStr e \<noteq> '''' then ''['' @ typeStr e @ ''] '' @ m else m)
                     in case cause e of
                          None \<Rightarrow> Some (Inr m)
                        | Some c \<Rightarrow>
                            Option.bind (Error_old h c)
                              (\<lambda>r. case r of
                                      Inl p \<Rightarrow> Some (Inl p)
                                    | Inr s \<Rightarrow> Some (Inr (m @ '': '' @ s)))))))"

text \<open>
  \<open>WithMetadata\<close> stores the argument's reference when the field is nil; otherwise
  the loop assigns every entry of \<open>meta\<close> to the map the field refers to. Keys are
  unique, so whatever the order of the iteration the map ends as its old entries
  overridden by those of \<open>meta\<close>; ranging over a nil map does nothing.
\<close>

definition WithMetadata :: "heap \<Rightarrow> addr \<Rightarrow> Metadata \<Rightarrow> panic + heap \<times> addr" where
  "WithMetadata h a meta =
     (case deref h a of
        Inl p \<Rightarrow> Inl p
      | Inr e \<Rightarrow>
          (case metadata e of
             None \<Rightarrow> Inr (h\<lparr>objs := (objs h)(a := e\<lparr>metadata := meta\<rparr>)\<rparr>, a)
           | Some r \<Rightarrow>
               (case meta of
                  None \<Rightarrow> Inr (h, a)
                | Some r2 \<Rightarrow> Inr (h\<lparr>maps := (maps h)(r := maps h r ++ maps h r2)\<rparr>, a))))"

text \<open>
  \<open>GetMetadata\<close> returns \<open>&baseErr.metadata\<close>, a pointer to the field of the object
  found: the address of that object. \<open>load_Metadata\<close> is the read \<open>*metaPtr\<close>.
\<close>

definition GetMetadata :: "heap \<Rightarrow> error \<Rightarrow> panic + addr option" where
  "GetMetadata h err =
     (case As err of
        Some a \<Rightarrow> (case deref h a of Inl p \<Rightarrow> Inl p | Inr e \<Rightarrow> Inr (Some a))
      | None \<Rightarrow> Inr None)"

definition load_Metadata :: "heap \<Rightarrow> addr \<Rightarrow> Metadata" where
  "load_Metadata h metaPtr = metadata (objs h metaPtr)"

subsection \<open>Constructors\<close>

text \<open>
  \<open>fmt.Sprintf\<close> belongs to the Go library; the constructors that format their
  message take it as the parameter \<open>sprintf\<close>. Every constructor takes the heap and
  returns the heap with the new object and the pointer to it. The fields of a
  composite literal are evaluated in the order written, so a nil \<open>baseErr\<close> panics
  before anything is allocated.
\<close>

type_synonym Sprintf = "string \<Rightarrow> any list \<Rightarrow> string"

definition New :: "Sprintf \<Rightarrow> heap \<Rightarrow> Frame list \<Rightarrow> string \<Rightarrow> any list \<Rightarrow> heap \<times> addr" where
  "New sprintf h cs message args =
     (let m = sprintf message args;
          st = getStack 0 cs;
          (h1, r) = alloc_map h Map.empty
      in alloc_obj h1 \<lparr>cause = None, msg = m, typeStr = '''', stacktrace = st, metadata = Some r\<rparr>)"

definition W :: "heap \<Rightarrow> Frame list \<Rightarrow> error \<Rightarrow> panic + heap \<times> addr" where
  "W h cs err =
     (case As err of
        Some a \<Rightarrow>
          (case deref h a of
             Inl p \<Rightarrow> Inl p
           | Inr baseErr \<Rightarrow>
               Inr (alloc_obj h \<lparr>cause = err, msg = '''', typeStr = typeStr baseErr,
                      stacktrace = getStack 0 cs, metadata = metadata baseErr\<rparr>))
      | None \<Rightarrow>
          (let st = getStack 0 cs;
               (h1, r) = alloc_map h Map.empty
           in Inr (alloc_obj h1 \<lparr>cause = err, msg = '''', typeStr = '''', stacktrace = st,
                     metadata = Some r\<rparr>)))"

definition Wrap :: "Sprintf \<Rightarrow> heap \<Rightarrow> Frame list \<Rightarrow> error \<Rightarrow> string \<Rightarrow> any list \<Rightarrow> panic + heap \<times> addr" where
  "Wrap sprintf h cs err message args =
     (let m = sprintf message args
      in case As err of
           Some a \<Rightarrow>
             (case deref h a of
                Inl p \<Rightarrow> Inl p
              | Inr baseErr \<Rightarrow>
                  Inr (alloc_obj h \<lparr>cause = err, msg = m, typeStr = typeStr baseErr,
                         stacktrace = getStack 0 cs, metadata = metadata baseErr\<rparr>))
         | None \<Rightarrow>
             (let st = getStack 0 cs;
                  (h1, r) = alloc_map h Map.empty
              in Inr (alloc_obj h1 \<lparr>cause = err, msg = m, typeStr = '''', stacktrace = st,
                        metadata = Some r\<rparr>)))"

definition NewWithType :: "Sprintf \<Rightarrow> heap \<Rightarrow> Frame list \<Rightarrow> string \<Rightarrow> string \<Rightarrow> any list \<Rightarrow> heap \<times> addr" where
  "NewWithType sprintf h cs message tag args =
     (let m = sprintf message args;
          st = getStack 0 cs;
          (h1, r) = alloc_map h Map.empty
      in alloc_obj h1 \<lparr>cause = None, msg = m, typeStr = tag, stacktrace = st, metadata = Some r\<rparr>)"

text \<open>
  \<open>WrapWithType\<close>: \<open>meta\<close> starts as a new empty map and, when \<open>GetMetadata\<close> found
  a \<open>baseError\<close>, is overwritten by \<open>*metaPtr\<close>, the reference held in that error's
  field.
\<close>

definition WrapWithType :: "Sprintf \<Rightarrow> heap \<Rightarrow> Frame list \<Rightarrow> error \<Rightarrow> string \<Rightarrow> string \<Rightarrow> any list \<Rightarrow> panic + heap \<times> addr" where
  "WrapWithType sprintf h cs err message tag args =
     (let m = sprintf message args
      in case GetMetadata h err of
           Inl p \<Rightarrow> Inl p
         | Inr metaPtr \<Rightarrow>
             (let (h1, r) = alloc_map h Map.empty;
                  meta = (case metaPtr of None \<Rightarrow> Some r | Some q \<Rightarrow> load_Metadata h1 q)
              in Inr (alloc_obj h1 \<lparr>cause = err, msg = m, typeStr = tag,
                        stacktrace = getStack 0 cs, metadata = meta\<rparr>)))"

definition NewSentinel :: "heap \<Rightarrow> string \<Rightarrow> string \<Rightarrow> heap \<times> addr" where
  "NewSentinel h tag message =
     (let (h1, r) = alloc_map h Map.empty
      in alloc_obj h1 \<lparr>cause = None, msg = message, typeStr = tag, stacktrace = [],
           metadata = Some r\<rparr>)"

text \<open>
  \<open>SentinelWithStack\<close> first assigns nil to the \<open>stacktrace\<close> field of the
  \<open>baseError\<close> it found, then allocates the new error, whose cause is that
  \<open>baseError\<close>.
\<close>

definition SentinelWithStack :: "heap \<Rightarrow> Frame list \<Rightarrow> error \<Rightarrow> panic + heap \<times> addr" where
  "SentinelWithStack h cs err =
     (case As err of
        Some a \<Rightarrow>
          (case deref h a of
             Inl p \<Rightarrow> Inl p
           | Inr baseErr \<Rightarrow>
               (let h1 = h\<lparr>objs := (objs h)(a := baseErr\<lparr>stacktrace := []\<rparr>)\<rparr>
                in Inr (alloc_obj h1 \<lparr>cause = Some (BaseErr a), msg = msg baseErr,
                          typeStr = typeStr baseErr, stacktrace = getStack 0 cs,
                          metadata = metadata baseErr\<rparr>)))
      | None \<Rightarrow>
          (let st = getStack 0 cs;
               (h1, r) = alloc_map h Map.empty
           in Inr (alloc_obj h1 \<lparr>cause = err, msg = '''', typeStr = '''', stacktrace = st,
                     metadata = Some r\<rparr>)))"

text \<open>
  The \<open>SentinelWithStack\<close> of the older \<open>errors.go\<close>: a type assertion instead of
  \<open>errors.As\<close>, the same assignment to \<open>stacktrace\<close>, and a new error that copies
  the cause of the sentinel instead of wrapping the sentinel. The older struct has no
  metadata field; the field stays nil here.
\<close>

definition SentinelWithStack_old :: "heap \<Rightarrow> Frame list \<Rightarrow> error \<Rightarrow> panic + heap \<times> addr" where
  "SentinelWithStack_old h cs err =
     (case err of
        Some (BaseErr a) \<Rightarrow>
          (case deref h a of
             Inl p \<Rightarrow> Inl p
           | Inr e \<Rightarrow>
               (let h1 = h\<lparr>objs := (objs h)(a := e\<lparr>stacktrace := []\<rparr>)\<rparr>
                in Inr (alloc_obj h1 \<lparr>cause = cause e, msg = msg e, typeStr = typeStr e,
                          stacktrace = getStack 0 cs, metadata = None\<rparr>)))
      | _ \<Rightarrow>
          Inr (alloc_obj h \<lparr>cause = err, msg = '''', typeStr = '''',
                 stacktrace = getStack 0 cs, metadata = None\<rparr>))"

subsection \<open>Panic capture\<close>

text \<open>
  The assignment \<open>baseErr.stacktrace = baseErr.stacktrace[2:]\<close>, on the pointer that
  \<open>Wrap\<close> or \<open>New\<close> has just returned. The slice expression panics when the trace
  has fewer than two frames.
\<close>

definition trim_two :: "heap \<Rightarrow> addr \<Rightarrow> panic + heap" where
  "trim_two h a =
     (let e = objs h a
      in if length (stacktrace e) < 2 then Inl SliceOutOfRange
         else Inr (h\<lparr>objs := (objs h)(a := e\<lparr>stacktrace := drop 2 (stacktrace e)\<rparr>)\<rparr>))"

text \<open>
  \<open>RecoverPanic(r, errPtr)\<close>. \<open>slot\<close> is the error that \<open>errPtr\<close> points to, and
  the result carries what it points to afterwards. \<open>Wrap\<close> and \<open>New\<close> are called from
  \<open>RecoverPanic\<close>, so here \<open>cs\<close> starts with the frame of \<open>RecoverPanic\<close> itself,
  followed by the deferred function that called it.
\<close>

definition RecoverPanic :: "Sprintf \<Rightarrow> heap \<Rightarrow> Frame list \<Rightarrow> any \<Rightarrow> error \<Rightarrow> panic + heap \<times> error" where
  "RecoverPanic sprintf h cs r slot =
     (case r of
        ANil \<Rightarrow> Inr (h, slot)
      | AErr panicErr \<Rightarrow>
          (case panicErr of
             BaseErr a \<Rightarrow> Inr (h, Some (BaseErr a))
           | Foreign i s c \<Rightarrow>
               (case Wrap sprintf h cs (Some panicErr) ''caught panic'' [] of
                  Inl p \<Rightarrow> Inl p
                | Inr (h1, baseErr) \<Rightarrow>
                    (case trim_two h1 baseErr of
                       Inl p \<Rightarrow> Inl p
                     | Inr h2 \<Rightarrow> Inr (h2, Some (BaseErr baseErr)))))
      | _ \<Rightarrow>
          (let (h1, baseErr) = New sprintf h cs (sprintf ''caught panic: %v'' [r]) []
           in case trim_two h1 baseErr of
                Inl p \<Rightarrow> Inl p
              | Inr h2 \<Rightarrow> Inr (h2, Some (BaseErr baseErr))))"

subsection \<open>Composed calls and example data\<close>

text \<open>
  A chain of \<open>Wrap\<close> calls: each element of the list is one more layer, with its own
  call stack, message and arguments, wrapped around the result of the layer before.
\<close>

fun Wrap_layers :: "Sprintf \<Rightarrow> heap \<Rightarrow> error \<Rightarrow> (Frame list \<times> string \<times> any list) list \<Rightarrow> panic + heap \<times> error" where
  "Wrap_layers sprintf h err [] = Inr (h, err)"
| "Wrap_layers sprintf h err ((cs, message, args) # layers) =
     (case Wrap sprintf h cs err message args of
        Inl p \<Rightarrow> Inl p
      | Inr (h1, w) \<Rightarrow> Wrap_layers sprintf h1 (Some (BaseErr w)) layers)"

text \<open>
  The values of \<open>fmt.Sprintf\<close> at the calls of the examples below: a format without
  verbs and without arguments comes back as it is, and \<open>%v\<close> prints a string
  argument as it is.
\<close>

fun Sprintf_example :: Sprintf where
  "Sprintf_example format [AStr s] =
     (if format = ''caught panic: %v'' then ''caught panic: '' @ s else format)"
| "Sprintf_example format args = format"

text \<open>Call stacks of the examples: a handler called from \<open>main\<close>, at two call sites.\<close>

definition stack_save :: "Frame list" where
  "stack_save =
     [\<lparr>Function = ''main.save'', File = ''main.go'', Line = 12\<rparr>,
      \<lparr>Function = ''main.main'', File = ''main.go'', Line = 30\<rparr>,
      \<lparr>Function = ''runtime.main'', File = ''proc.go'', Line = 250\<rparr>,
      \<lparr>Function = ''runtime.goexit'', File = ''asm.s'', Line = 1650\<rparr>]"

definition stack_handle :: "Frame list" where
  "stack_handle =
     [\<lparr>Function = ''main.handle'', File = ''main.go'', Line = 21\<rparr>,
      \<lparr>Function = ''main.main'', File = ''main.go'', Line = 31\<rparr>,
      \<lparr>Function = ''runtime.main'', File = ''proc.go'', Line = 250\<rparr>,
      \<lparr>Function = ''runtime.goexit'', File = ''asm.s'', Line = 1650\<rparr>]"

text \<open>
  The scenario of the specification: \<open>e1 := New("disk full")\<close>,
  \<open>e2 := WrapWithType(e1, "save failed", "IOError")\<close> and
  \<open>e3 := Wrap(e2, "request failed")\<close>, run from the empty heap. The three errors
  get the addresses 0, 1 and 2.
\<close>

definition heap_e1 :: heap where
  "heap_e1 = fst (New Sprintf_example empty_heap stack_save ''disk full'' [])"

definition heap_e2 :: heap where
  "heap_e2 =
     fst (projr (WrapWithType Sprintf_example heap_e1 stack_save (Some (BaseErr 0))
                   ''save failed'' ''IOError'' []))"

definition heap_e3 :: heap where
  "heap_e3 =
     fst (projr (Wrap Sprintf_example heap_e2 stack_handle (Some (BaseErr 1))
                   ''request failed'' []))"

text \<open>
  Metadata in use: after \<open>e1 := New("disk full")\<close> the caller runs
  \<open>e1.WithMetadata(Metadata{"user": "ann", "attempt": 1})\<close> and builds a second
  map \<open>Metadata{"attempt": 2}\<close>. The map of \<open>e1\<close> is map 0, the two literals are
  maps 1 and 2.
\<close>

definition heap_meta :: heap where
  "heap_meta =
     (let (h1, r1) = alloc_map heap_e1 [''user'' \<mapsto> AStr ''ann'', ''attempt'' \<mapsto> AInt 1];
          (h2, e) = projr (WithMetadata h1 0 (Some r1))
      in fst (alloc_map h2 [''attempt'' \<mapsto> AInt 2]))"

text \<open>
  Then \<open>e2 := WrapWithType(e1, "save failed", "IOError")\<close> and
  \<open>e2.WithMetadata(m)\<close> with \<open>m\<close> the second map.
\<close>

definition heap_meta_wrapped :: heap where
  "heap_meta_wrapped =
     fst (projr (WrapWithType Sprintf_example heap_meta stack_save (Some (BaseErr 0))
                   ''save failed'' ''IOError'' []))"

definition heap_meta_updated :: heap where
  "heap_meta_updated = fst (projr (WithMetadata heap_meta_wrapped 1 (Some 2)))"

text \<open>
  Sentinels: \<open>var ErrNotFound = NewSentinel("ErrNotFound", "not found")\<close>, then two
  calls \<open>SentinelWithStack(ErrNotFound)\<close> made from one and the same call stack, as in
  a loop.
\<close>

definition heap_sentinel :: heap where
  "heap_sentinel = fst (NewSentinel empty_heap ''ErrNotFound'' ''not found'')"

definition heap_sentinel_used :: heap where
  "heap_sentinel_used =
     fst (projr (SentinelWithStack heap_sentinel stack_save (Some (BaseErr 0))))"

definition heap_sentinel_used_twice :: heap where
  "heap_sentinel_used_twice =
     fst (projr (SentinelWithStack heap_sentinel_used stack_save (Some (BaseErr 0))))"

text \<open>
  A sentinel that has a trace:
  \<open>var ErrTimeout = NewWithType("timed out", "ErrTimeout")\<close>, then
  \<open>SentinelWithStack(ErrTimeout)\<close>.
\<close>

definition heap_traced :: heap where
  "heap_traced = fst (NewWithType Sprintf_example empty_heap stack_save ''timed out'' ''ErrTimeout'' [])"

definition heap_traced_used :: heap where
  "heap_traced_used =
     fst (projr (SentinelWithStack heap_traced stack_handle (Some (BaseErr 0))))"

text \<open>
  A panic in \<open>main.run\<close>, caught by a deferred function that calls \<open>RecoverPanic\<close>:
  the stack as \<open>getStack\<close> sees it from the constructor that \<open>RecoverPanic\<close> calls.
\<close>

definition stack_panic :: "Frame list" where
  "stack_panic =
     [\<lparr>Function = ''github.com/exactlylabs/go-errors/pkg/errors.RecoverPanic'',
        File = ''panic.go'', Line = 14\<rparr>,
      \<lparr>Function = ''main.run.func1'', File = ''main.go'', Line = 41\<rparr>,
      \<lparr>Function = ''runtime.gopanic'', File = ''panic.go'', Line = 884\<rparr>,
      \<lparr>Function = ''main.run'', File = ''main.go'', Line = 45\<rparr>,
      \<lparr>Function = ''main.main'', File = ''main.go'', Line = 30\<rparr>,
      \<lparr>Function = ''runtime.main'', File = ''proc.go'', Line = 250\<rparr>,
      \<lparr>Function = ''runtime.goexit'', File = ''asm.s'', Line = 1650\<rparr>]"

section \<open>Notions of the specification\<close>

text \<open>
  The specification speaks of the path-free symbol and of the text before or after a
  dot. These follow its words, not the code, and serve to state what the code computes.
\<close>

definition path_free :: "string \<Rightarrow> string" where
  "path_free s = rev (takeWhile (\<lambda>c. c \<noteq> CHR ''/'') (rev s))"

definition before_last_dot :: "string \<Rightarrow> string" where
  "before_last_dot s = rev (tl (dropWhile (\<lambda>c. c \<noteq> CHR ''.'') (rev s)))"

definition before_first_dot :: "string \<Rightarrow> string" where
  "before_first_dot s = takeWhile (\<lambda>c. c \<noteq> CHR ''.'') s"

definition after_last_dot :: "string \<Rightarrow> string" where
  "after_last_dot s = rev (takeWhile (\<lambda>c. c \<noteq> CHR ''.'') (rev s))"

text \<open>
  The cause chains of a heap are well founded when the \<open>baseError\<close> that \<open>errors.As\<close>
  finds behind the cause of an error was allocated before that error. The constructors
  only ever point a new error at errors that exist, so every heap they build has this
  property (lemmas \<open>chain_ok_*\<close> below).
\<close>

definition chain_ok :: "heap \<Rightarrow> bool" where
  "chain_ok h = (\<forall>a b. a < nobjs h \<and> As (cause (objs h a)) = Some b \<longrightarrow> b < a)"

text \<open>
  A heap in which the metadata field of every error is set. The constructors always
  store a map reference, and \<open>WithMetadata\<close> replaces only a nil field, so every heap
  they build has this property (lemmas \<open>meta_set_*\<close> below).
\<close>

definition meta_set :: "heap \<Rightarrow> bool" where
  "meta_set h = (\<forall>a. a < nobjs h \<longrightarrow> metadata (objs h a) \<noteq> None)"

section \<open>Verified properties\<close>

subsection \<open>Searching a string for one byte\<close>

lemma LastIndex_ge: "- 1 \<le> LastIndex s [c]"
  by (induction s) (auto simp: Let_def)

lemma LastIndex_none: "LastIndex s [c] = - 1 \<longleftrightarrow> c \<notin> set s"
proof (induction s)
  case Nil
  then show ?case by simp
next
  case (Cons a s)
  with LastIndex_ge[of s c] show ?case by (auto simp: Let_def)
qed

lemma Index_ge: "- 1 \<le> Index s [c]"
  by (induction s) (auto simp: Let_def)

lemma Index_none: "Index s [c] = - 1 \<longleftrightarrow> c \<notin> set s"
proof (induction s)
  case Nil
  then show ?case by simp
next
  case (Cons a s)
  with Index_ge[of s c] show ?case by (auto simp: Let_def)
qed

lemma drop_LastIndex:
  "drop (nat (LastIndex s [c] + 1)) s = rev (takeWhile (\<lambda>x. x \<noteq> c) (rev s))"
proof (induction s)
  case Nil
  then show ?case by simp
next
  case (Cons a s)
  show ?case
  proof (cases "c \<in> set s")
    case True
    then have ne: "LastIndex s [c] \<noteq> - 1" by (simp add: LastIndex_none)
    with LastIndex_ge[of s c] have ge: "0 \<le> LastIndex s [c]" by linarith
    have "takeWhile (\<lambda>x. x \<noteq> c) (rev s @ [a]) = takeWhile (\<lambda>x. x \<noteq> c) (rev s)"
      using True by (intro takeWhile_append1[of c]) auto
    with Cons ne ge show ?thesis by (simp add: Let_def nat_add_distrib)
  next
    case False
    then have eq: "LastIndex s [c] = - 1" by (simp add: LastIndex_none)
    have "takeWhile (\<lambda>x. x \<noteq> c) (rev s @ [a]) = rev s @ takeWhile (\<lambda>x. x \<noteq> c) [a]"
      using False by (intro takeWhile_append2) auto
    with eq show ?thesis by (auto simp: Let_def)
  qed
qed

lemma take_Index:
  "c \<in> set s \<Longrightarrow> take (nat (Index s [c])) s = takeWhile (\<lambda>x. x \<noteq> c) s"
proof (induction s)
  case Nil
  then show ?case by simp
next
  case (Cons a s)
  show ?case
  proof (cases "a = c")
    case True
    then show ?thesis by simp
  next
    case False
    with Cons.prems have in_s: "c \<in> set s" by simp
    then have ne: "Index s [c] \<noteq> - 1" by (simp add: Index_none)
    with Index_ge[of s c] have "0 \<le> Index s [c]" by linarith
    with False Cons.IH[OF in_s] ne show ?thesis
      by (simp add: Let_def nat_add_distrib)
  qed
qed

lemma slice_from_path_free: "slice_from s (LastIndex s ''/'' + 1) = path_free s"
  by (simp add: slice_from_def path_free_def drop_LastIndex)

lemma Package_unreserved:
  assumes "\<not> prefix ''go.'' (Function f)" and "\<not> prefix ''type.'' (Function f)"
  shows "Package f =
           (if CHR ''.'' \<in> set (path_free (Function f))
            then before_first_dot (path_free (Function f)) else '''')"
proof -
  define s where "s = Function f"
  define lo where "lo = LastIndex s ''/'' + 1"
  define i where "i = Index (slice_from s lo) ''.''"
  have rest: "slice_from s lo = path_free s"
    unfolding lo_def by (rule slice_from_path_free)
  have lo0: "0 \<le> lo" unfolding lo_def using LastIndex_ge[of s "CHR ''/''"] by simp
  have P: "Package f = (if i \<noteq> - 1 then slice s lo (lo + i) else '''')"
    using assms by (simp add: Package_def HasPrefix_def Let_def s_def lo_def i_def)
  show ?thesis
  proof (cases "CHR ''.'' \<in> set (path_free s)")
    case True
    then have ne: "i \<noteq> - 1" by (simp add: i_def rest Index_none)
    with Index_ge[of "slice_from s lo" "CHR ''.''"] have i0: "0 \<le> i" by (simp add: i_def)
    have "slice s lo (lo + i) = take (nat i) (slice_from s lo)"
      using lo0 i0 by (simp add: slice_def slice_from_def nat_add_distrib)
    also have "\<dots> = before_first_dot (path_free s)"
      using True take_Index[of "CHR ''.''" "path_free s"]
      by (simp add: i_def rest before_first_dot_def)
    finally show ?thesis using P ne True by (simp add: s_def)
  next
    case False
    then have "i = - 1" by (simp add: i_def rest Index_none)
    with P False show ?thesis by (simp add: s_def)
  qed
qed

lemma FuncName_after_last_dot: "FuncName f = after_last_dot (Function f)"
proof (cases "CHR ''.'' \<in> set (Function f)")
  case True
  then have "LastIndex (Function f) ''.'' \<noteq> - 1" by (simp add: LastIndex_none)
  then show ?thesis
    by (simp add: FuncName_def Let_def slice_from_def after_last_dot_def drop_LastIndex)
next
  case False
  then have "LastIndex (Function f) ''.'' = - 1" by (simp add: LastIndex_none)
  moreover have "after_last_dot (Function f) =
      drop (nat (LastIndex (Function f) ''.'' + 1)) (Function f)"
    by (simp add: after_last_dot_def drop_LastIndex)
  ultimately show ?thesis by (simp add: FuncName_def Let_def)
qed

subsection \<open>Frame decomposition\<close>

text \<open>
  Claim C9, as the specification words it: \<open>Package()\<close> is the part of the path-free
  symbol before its last dot. On the symbol \<open>pkg/sub.Handler.func1\<close> that part is
  \<open>sub.Handler\<close>, while \<open>Package()\<close> returns \<open>sub\<close>: the code cuts at the first dot.
\<close>

theorem C9_Package_last_dot_counterexample:
  "before_last_dot (path_free ''pkg/sub.Handler.func1'') = ''sub.Handler'' \<and>
   Package \<lparr>Function = ''pkg/sub.Handler.func1'', File = ''handler.go'', Line = 10\<rparr>
     \<noteq> before_last_dot (path_free ''pkg/sub.Handler.func1'')"
  by (simp add: Package_def HasPrefix_def slice_def slice_from_def
      before_last_dot_def path_free_def)

text \<open>
  Claim C9, amended: \<open>Package()\<close> is empty for a symbol that starts with \<open>go.\<close> or
  \<open>type.\<close>; otherwise it is the part of the path-free symbol (the text after the last
  slash) before its first dot, and empty when the path-free symbol has no dot.
  \<open>FuncName()\<close> is the part of the whole symbol after its last dot, which is the
  whole symbol when there is no dot. The symbol \<open>pkg/sub.Handler.func1\<close> gives
  package \<open>sub\<close> and function name \<open>func1\<close>.
\<close>

theorem C9_frame_decomposition:
  "((prefix ''go.'' (Function f) \<or> prefix ''type.'' (Function f)) \<longrightarrow> Package f = '''') \<and>
   (\<not> prefix ''go.'' (Function f) \<and> \<not> prefix ''type.'' (Function f) \<longrightarrow>
      Package f =
        (if CHR ''.'' \<in> set (path_free (Function f))
         then before_first_dot (path_free (Function f)) else '''')) \<and>
   FuncName f = after_last_dot (Function f) \<and>
   (CHR ''.'' \<notin> set (Function f) \<longrightarrow> FuncName f = Function f) \<and>
   Package (f\<lparr>Function := ''pkg/sub.Handler.func1''\<rparr>) = ''sub'' \<and>
   FuncName (f\<lparr>Function := ''pkg/sub.Handler.func1''\<rparr>) = ''func1''"
proof -
  have reserved: "(prefix ''go.'' (Function f) \<or> prefix ''type.'' (Function f)) \<longrightarrow> Package f = ''''"
    by (auto simp: Package_def HasPrefix_def)
  have nodot: "CHR ''.'' \<notin> set (Function f) \<longrightarrow> FuncName f = Function f"
    by (simp add: FuncName_def Let_def LastIndex_none)
  have ex1: "Package (f\<lparr>Function := ''pkg/sub.Handler.func1''\<rparr>) = ''sub''"
    by (simp add: Package_def HasPrefix_def slice_def slice_from_def)
  have ex2: "FuncName (f\<lparr>Function := ''pkg/sub.Handler.func1''\<rparr>) = ''func1''"
    by (simp add: FuncName_def slice_from_def)
  from reserved nodot ex1 ex2 Package_unreserved[of f] FuncName_after_last_dot[of f]
  show ?thesis by blast
qed

theorem C9_frame_decomposition_witness:
  "Package \<lparr>Function = ''type..eq.[2]string'', File = '''', Line = 0\<rparr> = '''' \<and>
   Package \<lparr>Function = ''github.com/acme/store.(*DB).Save'', File = ''db.go'', Line = 42\<rparr> = ''store'' \<and>
   FuncName \<lparr>Function = ''github.com/acme/store.(*DB).Save'', File = ''db.go'', Line = 42\<rparr> = ''Save'' \<and>
   FuncName \<lparr>Function = ''main'', File = ''main.go'', Line = 1\<rparr> = ''main''"
  using C9_frame_decomposition
          [of "\<lparr>Function = ''type..eq.[2]string'', File = '''', Line = 0\<rparr>"]
        C9_frame_decomposition
          [of "\<lparr>Function = ''github.com/acme/store.(*DB).Save'', File = ''db.go'', Line = 42\<rparr>"]
        C9_frame_decomposition
          [of "\<lparr>Function = ''main'', File = ''main.go'', Line = 1\<rparr>"]
  by (simp add: path_free_def before_first_dot_def after_last_dot_def)

subsection \<open>What the constructors return\<close>

lemma frames_loop_butlast: "frames_loop fs stack = stack @ butlast fs"
  by (induction fs stack rule: frames_loop.induct) simp_all

lemma getStack_0: "getStack 0 cs = butlast (take 32 cs)"
  by (simp add: getStack_def runtime_Callers_def frames_loop_butlast)

lemma length_getStack_0: "length (getStack 0 cs) = min (length cs) 32 - 1"
  by (simp add: getStack_0)

lemma getStack_stack_save: "getStack 0 stack_save = 
   [\<lparr>Function = ''main.save'', File = ''main.go'', Line = 12\<rparr>,
      \<lparr>Function = ''main.main'', File = ''main.go'', Line = 30\<rparr>,
      \<lparr>Function = ''runtime.main'', File = ''proc.go'', Line = 250\<rparr>]"
  by (simp add: getStack_0 stack_save_def)

lemma getStack_stack_handle: "getStack 0 stack_handle = 
   [\<lparr>Function = ''main.handle'', File = ''main.go'', Line = 21\<rparr>,
      \<lparr>Function = ''main.main'', File = ''main.go'', Line = 31\<rparr>,
      \<lparr>Function = ''runtime.main'', File = ''proc.go'', Line = 250\<rparr>]"
  by (simp add: getStack_0 stack_handle_def)

lemma Wrap_result:
  "Wrap sprintf h cs err m args =
     (case As err of
        Some a \<Rightarrow>
          (if a < nobjs h
           then Inr (h\<lparr>objs := (objs h)(nobjs h := \<lparr>cause = err, msg = sprintf m args,
                        typeStr = typeStr (objs h a), stacktrace = getStack 0 cs,
                        metadata = metadata (objs h a)\<rparr>), nobjs := Suc (nobjs h)\<rparr>, nobjs h)
           else Inl NilDereference)
      | None \<Rightarrow>
          Inr (h\<lparr>objs := (objs h)(nobjs h := \<lparr>cause = err, msg = sprintf m args,
                        typeStr = '''', stacktrace = getStack 0 cs,
                        metadata = Some (nmaps h)\<rparr>), nobjs := Suc (nobjs h),
                 maps := (maps h)(nmaps h := Map.empty), nmaps := Suc (nmaps h)\<rparr>, nobjs h))"
  by (simp add: Wrap_def alloc_obj_def alloc_map_def deref_def Let_def split: option.splits)

lemma W_result:
  "W h cs err =
     (case As err of
        Some a \<Rightarrow>
          (if a < nobjs h
           then Inr (h\<lparr>objs := (objs h)(nobjs h := \<lparr>cause = err, msg = '''',
                        typeStr = typeStr (objs h a), stacktrace = getStack 0 cs,
                        metadata = metadata (objs h a)\<rparr>), nobjs := Suc (nobjs h)\<rparr>, nobjs h)
           else Inl NilDereference)
      | None \<Rightarrow>
          Inr (h\<lparr>objs := (objs h)(nobjs h := \<lparr>cause = err, msg = '''',
                        typeStr = '''', stacktrace = getStack 0 cs,
                        metadata = Some (nmaps h)\<rparr>), nobjs := Suc (nobjs h),
                 maps := (maps h)(nmaps h := Map.empty), nmaps := Suc (nmaps h)\<rparr>, nobjs h))"
  by (simp add: W_def alloc_obj_def alloc_map_def deref_def Let_def split: option.splits)

lemma New_result:
  "New sprintf h cs m args =
     (h\<lparr>objs := (objs h)(nobjs h := \<lparr>cause = None, msg = sprintf m args,
                        typeStr = '''', stacktrace = getStack 0 cs,
                        metadata = Some (nmaps h)\<rparr>), nobjs := Suc (nobjs h),
                 maps := (maps h)(nmaps h := Map.empty), nmaps := Suc (nmaps h)\<rparr>, nobjs h)"
  by (simp add: New_def alloc_obj_def alloc_map_def Let_def)

lemma WrapWithType_result:
  "WrapWithType sprintf h cs err m tag args =
     (case As err of
        Some a \<Rightarrow>
          (if a < nobjs h
           then Inr (h\<lparr>objs := (objs h)(nobjs h := \<lparr>cause = err, msg = sprintf m args,
                        typeStr = tag, stacktrace = getStack 0 cs,
                        metadata = metadata (objs h a)\<rparr>), nobjs := Suc (nobjs h),
                 maps := (maps h)(nmaps h := Map.empty), nmaps := Suc (nmaps h)\<rparr>, nobjs h)
           else Inl NilDereference)
      | None \<Rightarrow>
          Inr (h\<lparr>objs := (objs h)(nobjs h := \<lparr>cause = err, msg = sprintf m args,
                        typeStr = tag, stacktrace = getStack 0 cs,
                        metadata = Some (nmaps h)\<rparr>), nobjs := Suc (nobjs h),
                 maps := (maps h)(nmaps h := Map.empty), nmaps := Suc (nmaps h)\<rparr>, nobjs h))"
  by (simp add: WrapWithType_def GetMetadata_def load_Metadata_def alloc_obj_def alloc_map_def
      deref_def Let_def split: option.splits)

subsection \<open>Wrapping: type tag and cause\<close>

lemma WithMetadata_result:
  "WithMetadata h a meta =
     (if a < nobjs h
      then (case metadata (objs h a) of
              None \<Rightarrow> Inr (h\<lparr>objs := (objs h)(a := (objs h a)\<lparr>metadata := meta\<rparr>)\<rparr>, a)
            | Some r \<Rightarrow>
                (case meta of
                   None \<Rightarrow> Inr (h, a)
                 | Some r2 \<Rightarrow> Inr (h\<lparr>maps := (maps h)(r := maps h r ++ maps h r2)\<rparr>, a)))
      else Inl NilDereference)"
  by (simp add: WithMetadata_def deref_def)

lemma Type_alloc:
  "a < nobjs h \<Longrightarrow>
   Type (h\<lparr>objs := (objs h)(nobjs h := e), nobjs := Suc (nobjs h)\<rparr>) (nobjs h) =
     Inr (if typeStr e \<noteq> '''' then typeStr e else reflect_TypeOf_String)"
  by (simp add: Type_def deref_def)

lemma Type_Inr_allocated: "Type h a = Inr T \<Longrightarrow> a < nobjs h"
  by (simp add: Type_def deref_def split: if_splits)

lemma Wrap_Type:
  assumes "As err = Some a" and "Type h a = Inr T"
  shows "\<exists>h' w. Wrap sprintf h cs err message args = Inr (h', w) \<and> Type h' w = Inr T"
proof -
  from assms(2) have "a < nobjs h" by (rule Type_Inr_allocated)
  with assms show ?thesis by (auto simp: Wrap_result Type_def deref_def split: if_splits)
qed

lemma W_Type:
  assumes "As err = Some a" and "Type h a = Inr T"
  shows "\<exists>h' w. W h cs err = Inr (h', w) \<and> Type h' w = Inr T"
proof -
  from assms(2) have "a < nobjs h" by (rule Type_Inr_allocated)
  with assms show ?thesis by (auto simp: W_result Type_def deref_def split: if_splits)
qed

lemma Wrap_layers_Type:
  assumes "As err = Some a" and "Type h a = Inr T"
  shows "\<exists>h' err' w. Wrap_layers sprintf h err layers = Inr (h', err') \<and>
           As err' = Some w \<and> Type h' w = Inr T"
  using assms
proof (induction layers arbitrary: h err a)
  case Nil
  then show ?case by simp
next
  case (Cons layer layers)
  obtain cs message args where layer: "layer = (cs, message, args)"
    by (cases layer) auto
  from Wrap_Type[OF Cons.prems, of sprintf cs message args]
  obtain h1 w where w: "Wrap sprintf h cs err message args = Inr (h1, w)"
    and T: "Type h1 w = Inr T" by blast
  have "As (Some (BaseErr w)) = Some w" by simp
  from Cons.IH[OF this T] w layer show ?case by simp
qed

text \<open>
  Claim C1: an error \<open>err\<close> carries the type tag \<open>T\<close> when the \<open>baseError\<close> that
  \<open>errors.As\<close> finds on its chain has \<open>Type() = T\<close>. Then \<open>Wrap(err, m)\<close> returns an
  error whose \<open>Type()\<close> is \<open>T\<close>, and so does \<open>W(err)\<close>; so the tag survives any number
  of \<open>Wrap\<close> layers.
\<close>

theorem C1_type_tag_propagates:
  assumes "As err = Some a" and "Type h a = Inr T"
  shows "(\<exists>h' w. Wrap sprintf h cs err message args = Inr (h', w) \<and> Type h' w = Inr T) \<and>
         (\<exists>h' w. W h cs err = Inr (h', w) \<and> Type h' w = Inr T) \<and>
         (\<exists>h' err' w. Wrap_layers sprintf h err layers = Inr (h', err') \<and>
             As err' = Some w \<and> Type h' w = Inr T)"
  using Wrap_Type[OF assms] W_Type[OF assms] Wrap_layers_Type[OF assms] by blast

theorem C1_type_tag_propagates_witness:
  "As (Some (BaseErr 1)) = Some 1 \<and> Type heap_e2 1 = Inr ''IOError'' \<and>
   (\<exists>h' w. Wrap Sprintf_example heap_e2 stack_handle (Some (BaseErr 1)) ''request failed'' []
              = Inr (h', w) \<and> Type h' w = Inr ''IOError'') \<and>
   (\<exists>h' err' w. Wrap_layers Sprintf_example heap_e2 (Some (BaseErr 1))
                   [(stack_handle, ''request failed'', []), (stack_save, ''retry failed'', [])]
              = Inr (h', err') \<and> As err' = Some w \<and> Type h' w = Inr ''IOError'')"
proof -
  have T: "Type heap_e2 1 = Inr ''IOError''"
    by (simp add: heap_e2_def heap_e1_def WrapWithType_result New_result empty_heap_def
        Type_def deref_def)
  have A: "As (Some (BaseErr 1)) = Some 1" by simp
  from C1_type_tag_propagates[OF A T] A T show ?thesis by blast
qed

text \<open>
  Claim C2: for every error \<open>err\<close> (nil, a \<open>baseError\<close> or an error of another type)
  and every message, \<open>Wrap(err, m)\<close> returns an error whose \<open>Unwrap()\<close> is \<open>err\<close> itself.
  \<open>Wrap\<close> reads the type tag of the \<open>baseError\<close> that \<open>errors.As\<close> finds behind
  \<open>err\<close>, so that pointer, when there is one, has to be allocated (not nil).
\<close>

theorem C2_Unwrap_Wrap:
  assumes "\<forall>a. As err = Some a \<longrightarrow> a < nobjs h"
  shows "\<exists>h' w. Wrap sprintf h cs err message args = Inr (h', w) \<and> Unwrap h' w = Inr err"
  using assms by (cases "As err") (simp_all add: Wrap_result Unwrap_def deref_def)

theorem C2_Unwrap_Wrap_witness:
  "(\<exists>h' w. Wrap Sprintf_example heap_e2 stack_handle (Some (BaseErr 1)) ''request failed'' []
              = Inr (h', w) \<and> Unwrap h' w = Inr (Some (BaseErr 1))) \<and>
   (\<exists>h' w. Wrap Sprintf_example heap_e2 stack_handle (Some (Foreign 7 ''EOF'' None)) ''read failed'' []
              = Inr (h', w) \<and> Unwrap h' w = Inr (Some (Foreign 7 ''EOF'' None))) \<and>
   (\<exists>h' w. Wrap Sprintf_example empty_heap stack_handle None ''nothing'' []
              = Inr (h', w) \<and> Unwrap h' w = Inr None)"
proof -
  have n: "nobjs heap_e2 = 2"
    by (simp add: heap_e2_def heap_e1_def WrapWithType_result New_result empty_heap_def)
  have 1: "\<forall>a. As (Some (BaseErr 1)) = Some a \<longrightarrow> a < nobjs heap_e2" by (simp add: n)
  have 2: "\<forall>a. As (Some (Foreign 7 ''EOF'' None)) = Some a \<longrightarrow> a < nobjs heap_e2" by simp
  have 3: "\<forall>a. As None = Some a \<longrightarrow> a < nobjs empty_heap" by simp
  from C2_Unwrap_Wrap[OF 1] C2_Unwrap_Wrap[OF 2] C2_Unwrap_Wrap[OF 3] show ?thesis by blast
qed

subsection \<open>Metadata: propagation, merge and sharing\<close>

lemma WithMetadata_entries:
  assumes "a < nobjs h"
  shows "\<exists>h2. WithMetadata h a meta = Inr (h2, a) \<and>
           nobjs h2 = nobjs h \<and>
           entries h2 (load_Metadata h2 a) = entries h (load_Metadata h a) ++ entries h meta \<and>
           (\<forall>r. load_Metadata h a \<noteq> Some r \<longrightarrow> maps h2 r = maps h r) \<and>
           (\<forall>r. load_Metadata h a = Some r \<longrightarrow> load_Metadata h2 = load_Metadata h)"
  using assms
  by (cases "metadata (objs h a)"; cases meta)
     (auto simp: WithMetadata_result entries_def load_Metadata_def)

lemma map_add_overrides:
  "(\<forall>k v. M2 k = Some v \<longrightarrow> (M1 ++ M2) k = Some v) \<and> (\<forall>k. M2 k = None \<longrightarrow> (M1 ++ M2) k = M1 k)"
  by (simp add: map_add_def)

text \<open>
  Claim C3: let \<open>err\<close> have the metadata \<open>M1\<close>, read through the \<open>baseError\<close> that
  \<open>errors.As\<close> finds. The error returned by \<open>Wrap(err, m)\<close> exposes exactly the entries
  of \<open>M1\<close>. \<open>WithMetadata(M2)\<close> on it returns the same error, whose metadata is then
  \<open>M1\<close> overridden by \<open>M2\<close>: a key of \<open>M2\<close> has the value \<open>M2\<close> gives it (a nested map
  is stored as the reference it is, not merged), any other key has what \<open>M1\<close> gave it,
  and no map object other than the metadata map itself is written.
\<close>

theorem C3_metadata_shallow_merge:
  assumes "As err = Some a" and "a < nobjs h"
    and "entries h (load_Metadata h a) = M1" and "entries h meta = M2"
  shows "\<exists>h1 w h2.
           Wrap sprintf h cs err message args = Inr (h1, w) \<and>
           GetMetadata h1 (Some (BaseErr w)) = Inr (Some w) \<and>
           entries h1 (load_Metadata h1 w) = M1 \<and>
           WithMetadata h1 w meta = Inr (h2, w) \<and>
           entries h2 (load_Metadata h2 w) = M1 ++ M2 \<and>
           (\<forall>k v. M2 k = Some v \<longrightarrow> entries h2 (load_Metadata h2 w) k = Some v) \<and>
           (\<forall>k. M2 k = None \<longrightarrow> entries h2 (load_Metadata h2 w) k = M1 k) \<and>
           (\<forall>r. load_Metadata h1 w \<noteq> Some r \<longrightarrow> maps h2 r = maps h1 r)"
proof -
  define h1 where "h1 = h\<lparr>objs := (objs h)(nobjs h := \<lparr>cause = err, msg = sprintf message args,
      typeStr = typeStr (objs h a), stacktrace = getStack 0 cs,
      metadata = metadata (objs h a)\<rparr>), nobjs := Suc (nobjs h)\<rparr>"
  have W: "Wrap sprintf h cs err message args = Inr (h1, nobjs h)"
    using assms(1,2) by (simp add: Wrap_result h1_def)
  have G: "GetMetadata h1 (Some (BaseErr (nobjs h))) = Inr (Some (nobjs h))"
    by (simp add: GetMetadata_def deref_def h1_def)
  have L: "load_Metadata h1 (nobjs h) = load_Metadata h a"
    by (simp add: load_Metadata_def h1_def)
  have E0: "entries h1 m = entries h m" for m
    by (cases m) (simp_all add: entries_def h1_def)
  have E1: "entries h1 (load_Metadata h1 (nobjs h)) = M1"
    using assms(3) by (simp only: L E0)
  have E2: "entries h1 meta = M2"
    using assms(4) by (simp only: E0)
  have "nobjs h < nobjs h1" by (simp add: h1_def)
  from WithMetadata_entries[OF this, of meta] obtain h2 where
    M: "WithMetadata h1 (nobjs h) meta = Inr (h2, nobjs h)"
    and E: "entries h2 (load_Metadata h2 (nobjs h)) = M1 ++ M2"
    and F: "\<forall>r. load_Metadata h1 (nobjs h) \<noteq> Some r \<longrightarrow> maps h2 r = maps h1 r"
    unfolding E1 E2 by blast
  from W G E1 M E F map_add_overrides[of M2 M1] show ?thesis
    by (intro exI[of _ h1] exI[of _ "nobjs h"] exI[of _ h2]) simp
qed

theorem C3_metadata_shallow_merge_witness:
  "As (Some (BaseErr 0)) = Some 0 \<and> 0 < nobjs heap_meta \<and>
   entries heap_meta (load_Metadata heap_meta 0) = [''user'' \<mapsto> AStr ''ann'', ''attempt'' \<mapsto> AInt 1] \<and>
   entries heap_meta (Some 2) = [''attempt'' \<mapsto> AInt 2] \<and>
   (\<exists>h1 w h2.
      Wrap Sprintf_example heap_meta stack_handle (Some (BaseErr 0)) ''request failed'' [] = Inr (h1, w) \<and>
      entries h1 (load_Metadata h1 w) ''attempt'' = Some (AInt 1) \<and>
      WithMetadata h1 w (Some 2) = Inr (h2, w) \<and>
      entries h2 (load_Metadata h2 w) ''attempt'' = Some (AInt 2) \<and>
      entries h2 (load_Metadata h2 w) ''user'' = Some (AStr ''ann''))"
proof -
  have A: "As (Some (BaseErr 0)) = Some 0" by simp
  have n: "0 < nobjs heap_meta"
    by (simp add: heap_meta_def heap_e1_def New_result empty_heap_def alloc_map_def
        WithMetadata_result)
  have M1: "entries heap_meta (load_Metadata heap_meta 0) =
              [''user'' \<mapsto> AStr ''ann'', ''attempt'' \<mapsto> AInt 1]"
    by (simp add: heap_meta_def heap_e1_def New_result empty_heap_def alloc_map_def
        WithMetadata_result entries_def load_Metadata_def)
  have M2: "entries heap_meta (Some 2) = [''attempt'' \<mapsto> AInt 2]"
    by (simp add: heap_meta_def heap_e1_def New_result empty_heap_def alloc_map_def
        WithMetadata_result entries_def)
  from C3_metadata_shallow_merge[OF A n M1 M2, of Sprintf_example stack_handle "''request failed''" "[]"]
  obtain h1 w h2 where
    "Wrap Sprintf_example heap_meta stack_handle (Some (BaseErr 0)) ''request failed'' [] = Inr (h1, w)"
    "entries h1 (load_Metadata h1 w) = [''user'' \<mapsto> AStr ''ann'', ''attempt'' \<mapsto> AInt 1]"
    "WithMetadata h1 w (Some 2) = Inr (h2, w)"
    "entries h2 (load_Metadata h2 w) =
       [''user'' \<mapsto> AStr ''ann'', ''attempt'' \<mapsto> AInt 1] ++ [''attempt'' \<mapsto> AInt 2]"
    by blast
  then have "Wrap Sprintf_example heap_meta stack_handle (Some (BaseErr 0)) ''request failed'' [] = Inr (h1, w) \<and>
      entries h1 (load_Metadata h1 w) ''attempt'' = Some (AInt 1) \<and>
      WithMetadata h1 w (Some 2) = Inr (h2, w) \<and>
      entries h2 (load_Metadata h2 w) ''attempt'' = Some (AInt 2) \<and>
      entries h2 (load_Metadata h2 w) ''user'' = Some (AStr ''ann'')"
    by simp
  with A n M1 M2 show ?thesis by blast
qed
lemma alloc_shared_WithMetadata:
  assumes "a < nobjs h" and "load_Metadata h a = Some r" and "metadata e = Some r"
    and "h1 = h\<lparr>objs := (objs h)(nobjs h := e), nobjs := Suc (nobjs h)\<rparr> \<or>
         h1 = h\<lparr>objs := (objs h)(nobjs h := e), nobjs := Suc (nobjs h),
                 maps := (maps h)(nmaps h := Map.empty), nmaps := Suc (nmaps h)\<rparr>"
  shows "load_Metadata h1 (nobjs h) = Some r \<and> load_Metadata h1 a = Some r \<and>
         (\<exists>h2. WithMetadata h1 (nobjs h) meta = Inr (h2, nobjs h) \<and>
               load_Metadata h2 a = Some r \<and> load_Metadata h2 (nobjs h) = Some r \<and>
               entries h2 (load_Metadata h2 a) = entries h1 (Some r) ++ entries h1 meta)"
  using assms
  by (cases meta) (auto simp: WithMetadata_result load_Metadata_def entries_def)

text \<open>
  Claim C10: \<open>Wrap\<close> and \<open>W\<close> return a new error, different from the wrapped
  \<open>baseError\<close> and with the wrapped error as its cause, and store in it the very map
  reference held by the wrapped \<open>baseError\<close>, which itself stays as it was: the two
  errors have one metadata map. After \<open>WithMetadata(M2)\<close> on the wrapper,
  \<open>GetMetadata\<close> on the wrapped error still leads to that map, which now holds its
  old entries overridden by \<open>M2\<close>: every entry of \<open>M2\<close> is visible through the
  wrapped error. The metadata field of the wrapped error is not nil, as is the case
  for every error the constructors make (lemmas \<open>meta_set_*\<close>).
\<close>

theorem C10_Wrap_shares_metadata_map:
  assumes "As err = Some a" and "a < nobjs h" and "load_Metadata h a = Some r"
  shows "(\<exists>h1 w h2.
            Wrap sprintf h cs err message args = Inr (h1, w) \<and>
            w = nobjs h \<and> w \<noteq> a \<and> nobjs h1 = Suc (nobjs h) \<and>
            Unwrap h1 w = Inr err \<and> objs h1 a = objs h a \<and>
            load_Metadata h1 w = Some r \<and> load_Metadata h1 a = Some r \<and>
            WithMetadata h1 w meta = Inr (h2, w) \<and>
            GetMetadata h2 err = Inr (Some a) \<and> load_Metadata h2 a = Some r \<and>
            GetMetadata h2 (Some (BaseErr w)) = Inr (Some w) \<and> load_Metadata h2 w = Some r \<and>
            entries h2 (load_Metadata h2 a) = entries h (Some r) ++ entries h meta \<and>
            (\<forall>k v. entries h meta k = Some v \<longrightarrow> entries h2 (load_Metadata h2 a) k = Some v)) \<and>
         (\<exists>h1 w h2.
            W h cs err = Inr (h1, w) \<and>
            w = nobjs h \<and> w \<noteq> a \<and> nobjs h1 = Suc (nobjs h) \<and>
            Unwrap h1 w = Inr err \<and> objs h1 a = objs h a \<and>
            load_Metadata h1 w = Some r \<and> load_Metadata h1 a = Some r \<and>
            WithMetadata h1 w meta = Inr (h2, w) \<and>
            GetMetadata h2 err = Inr (Some a) \<and> load_Metadata h2 a = Some r \<and>
            GetMetadata h2 (Some (BaseErr w)) = Inr (Some w) \<and> load_Metadata h2 w = Some r \<and>
            entries h2 (load_Metadata h2 a) = entries h (Some r) ++ entries h meta \<and>
            (\<forall>k v. entries h meta k = Some v \<longrightarrow> entries h2 (load_Metadata h2 a) k = Some v))"
proof -
  have ne: "nobjs h \<noteq> a" using assms(2) by simp
  have share: "\<exists>h2.
            Unwrap h1 (nobjs h) = Inr err \<and> objs h1 a = objs h a \<and>
            load_Metadata h1 (nobjs h) = Some r \<and> load_Metadata h1 a = Some r \<and>
            WithMetadata h1 (nobjs h) meta = Inr (h2, nobjs h) \<and>
            GetMetadata h2 err = Inr (Some a) \<and> load_Metadata h2 a = Some r \<and>
            GetMetadata h2 (Some (BaseErr (nobjs h))) = Inr (Some (nobjs h)) \<and>
            load_Metadata h2 (nobjs h) = Some r \<and>
            entries h2 (load_Metadata h2 a) = entries h (Some r) ++ entries h meta \<and>
            (\<forall>k v. entries h meta k = Some v \<longrightarrow> entries h2 (load_Metadata h2 a) k = Some v)"
    if h1: "h1 = h\<lparr>objs := (objs h)(nobjs h := e), nobjs := Suc (nobjs h)\<rparr>"
      and e: "metadata e = Some r" and c: "cause e = err" for h1 e
  proof -
    from alloc_shared_WithMetadata[OF assms(2,3) e, of h1 meta] h1
    obtain h2 where 1: "load_Metadata h1 (nobjs h) = Some r" "load_Metadata h1 a = Some r"
      and 2: "WithMetadata h1 (nobjs h) meta = Inr (h2, nobjs h)"
      and 3: "load_Metadata h2 a = Some r" "load_Metadata h2 (nobjs h) = Some r"
      and 4: "entries h2 (load_Metadata h2 a) = entries h1 (Some r) ++ entries h1 meta"
      by blast
    have U: "Unwrap h1 (nobjs h) = Inr err" "objs h1 a = objs h a"
      using ne c by (simp_all add: Unwrap_def deref_def h1)
    have E0: "entries h1 m = entries h m" for m
      by (cases m) (simp_all add: entries_def h1)
    have n2: "nobjs h2 = nobjs h1"
      using 2 by (auto simp: WithMetadata_result split: if_splits option.splits)
    with assms(1,2) have 5: "GetMetadata h2 err = Inr (Some a)"
      by (simp add: GetMetadata_def deref_def h1)
    from n2 have 9: "GetMetadata h2 (Some (BaseErr (nobjs h))) = Inr (Some (nobjs h))"
      by (simp add: GetMetadata_def deref_def h1)
    from 4 have 6: "entries h2 (load_Metadata h2 a) = entries h (Some r) ++ entries h meta"
      by (simp only: E0)
    then have 7: "\<forall>k v. entries h meta k = Some v \<longrightarrow> entries h2 (load_Metadata h2 a) k = Some v"
      by (simp add: map_add_def)
    show ?thesis
      by (rule exI[of _ h2]) (intro conjI U 1 2 3 5 9 6 7)
  qed
  have m: "metadata (objs h a) = Some r" using assms(3) by (simp add: load_Metadata_def)
  define e1 where "e1 = \<lparr>cause = err, msg = sprintf message args,
        typeStr = typeStr (objs h a), stacktrace = getStack 0 cs,
        metadata = metadata (objs h a)\<rparr>"
  define e2 where "e2 = \<lparr>cause = err, msg = '''',
        typeStr = typeStr (objs h a), stacktrace = getStack 0 cs,
        metadata = metadata (objs h a)\<rparr>"
  define hw where "hw = (\<lambda>e. h\<lparr>objs := (objs h)(nobjs h := e), nobjs := Suc (nobjs h)\<rparr>)"
  have W1: "Wrap sprintf h cs err message args = Inr (hw e1, nobjs h)"
    using assms(1,2) by (simp add: Wrap_result e1_def hw_def)
  have W2: "W h cs err = Inr (hw e2, nobjs h)"
    using assms(1,2) by (simp add: W_result e2_def hw_def)
  have n: "nobjs (hw e) = Suc (nobjs h)" for e by (simp add: hw_def)
  from share[of "hw e1" e1] m obtain h2 where A:
    "Unwrap (hw e1) (nobjs h) = Inr err" "objs (hw e1) a = objs h a"
    "load_Metadata (hw e1) (nobjs h) = Some r" "load_Metadata (hw e1) a = Some r"
    "WithMetadata (hw e1) (nobjs h) meta = Inr (h2, nobjs h)"
    "GetMetadata h2 err = Inr (Some a)" "load_Metadata h2 a = Some r"
    "GetMetadata h2 (Some (BaseErr (nobjs h))) = Inr (Some (nobjs h))"
    "load_Metadata h2 (nobjs h) = Some r"
    "entries h2 (load_Metadata h2 a) = entries h (Some r) ++ entries h meta"
    "\<forall>k v. entries h meta k = Some v \<longrightarrow> entries h2 (load_Metadata h2 a) k = Some v"
    by (auto simp: hw_def e1_def)
  from share[of "hw e2" e2] m obtain h3 where B:
    "Unwrap (hw e2) (nobjs h) = Inr err" "objs (hw e2) a = objs h a"
    "load_Metadata (hw e2) (nobjs h) = Some r" "load_Metadata (hw e2) a = Some r"
    "WithMetadata (hw e2) (nobjs h) meta = Inr (h3, nobjs h)"
    "GetMetadata h3 err = Inr (Some a)" "load_Metadata h3 a = Some r"
    "GetMetadata h3 (Some (BaseErr (nobjs h))) = Inr (Some (nobjs h))"
    "load_Metadata h3 (nobjs h) = Some r"
    "entries h3 (load_Metadata h3 a) = entries h (Some r) ++ entries h meta"
    "\<forall>k v. entries h meta k = Some v \<longrightarrow> entries h3 (load_Metadata h3 a) k = Some v"
    by (auto simp: hw_def e2_def)
  have P: "\<exists>h1 w h2.
            Wrap sprintf h cs err message args = Inr (h1, w) \<and>
            w = nobjs h \<and> w \<noteq> a \<and> nobjs h1 = Suc (nobjs h) \<and>
            Unwrap h1 w = Inr err \<and> objs h1 a = objs h a \<and>
            load_Metadata h1 w = Some r \<and> load_Metadata h1 a = Some r \<and>
            WithMetadata h1 w meta = Inr (h2, w) \<and>
            GetMetadata h2 err = Inr (Some a) \<and> load_Metadata h2 a = Some r \<and>
            GetMetadata h2 (Some (BaseErr w)) = Inr (Some w) \<and> load_Metadata h2 w = Some r \<and>
            entries h2 (load_Metadata h2 a) = entries h (Some r) ++ entries h meta \<and>
            (\<forall>k v. entries h meta k = Some v \<longrightarrow> entries h2 (load_Metadata h2 a) k = Some v)"
    by (rule exI[of _ "hw e1"], rule exI[of _ "nobjs h"], rule exI[of _ h2])
       (intro conjI W1 refl ne n A)
  have Q: "\<exists>h1 w h2.
            W h cs err = Inr (h1, w) \<and>
            w = nobjs h \<and> w \<noteq> a \<and> nobjs h1 = Suc (nobjs h) \<and>
            Unwrap h1 w = Inr err \<and> objs h1 a = objs h a \<and>
            load_Metadata h1 w = Some r \<and> load_Metadata h1 a = Some r \<and>
            WithMetadata h1 w meta = Inr (h2, w) \<and>
            GetMetadata h2 err = Inr (Some a) \<and> load_Metadata h2 a = Some r \<and>
            GetMetadata h2 (Some (BaseErr w)) = Inr (Some w) \<and> load_Metadata h2 w = Some r \<and>
            entries h2 (load_Metadata h2 a) = entries h (Some r) ++ entries h meta \<and>
            (\<forall>k v. entries h meta k = Some v \<longrightarrow> entries h2 (load_Metadata h2 a) k = Some v)"
    by (rule exI[of _ "hw e2"], rule exI[of _ "nobjs h"], rule exI[of _ h3])
       (intro conjI W2 refl ne n B)
  from P Q show ?thesis by (rule conjI)
qed

text \<open>The heaps of the metadata example, evaluated.\<close>

lemma heap_meta_facts:
  "nobjs heap_meta = 1" "nmaps heap_meta = 3"
  "metadata (objs heap_meta 0) = Some 0"
  "maps heap_meta 0 = [''user'' \<mapsto> AStr ''ann'', ''attempt'' \<mapsto> AInt 1]"
  "maps heap_meta 2 = [''attempt'' \<mapsto> AInt 2]"
  by (simp_all add: heap_meta_def heap_e1_def New_result empty_heap_def alloc_map_def
      WithMetadata_result)

lemma heap_meta_wrapped_facts:
  "WrapWithType Sprintf_example heap_meta stack_save (Some (BaseErr 0))
       ''save failed'' ''IOError'' [] = Inr (heap_meta_wrapped, 1)"
  "nobjs heap_meta_wrapped = 2"
  "metadata (objs heap_meta_wrapped 0) = Some 0"
  "metadata (objs heap_meta_wrapped (Suc 0)) = Some 0"
  "maps heap_meta_wrapped 0 = [''user'' \<mapsto> AStr ''ann'', ''attempt'' \<mapsto> AInt 1]"
  "maps heap_meta_wrapped 2 = [''attempt'' \<mapsto> AInt 2]"
  by (simp_all add: heap_meta_wrapped_def WrapWithType_result heap_meta_facts)

lemma heap_meta_updated_facts:
  "WithMetadata heap_meta_wrapped 1 (Some 2) = Inr (heap_meta_updated, 1)"
  "nobjs heap_meta_updated = 2"
  "metadata (objs heap_meta_updated 0) = Some 0"
  "maps heap_meta_updated 0 ''attempt'' = Some (AInt 2)"
  by (simp_all add: heap_meta_updated_def WithMetadata_result heap_meta_wrapped_facts)

text \<open>
  Claim C4, as the specification words it: \<open>WrapWithType\<close> gives the new error a copy
  of the wrapped error's metadata, so that a later change to the wrapper's metadata
  leaves the wrapped error's metadata alone. In the metadata example \<open>e1\<close> has
  \<open>attempt = 1\<close>; after \<open>e2 := WrapWithType(e1, \<dots>)\<close> and
  \<open>e2.WithMetadata(Metadata{"attempt": 2})\<close> the metadata of \<open>e1\<close> reads
  \<open>attempt = 2\<close>: \<open>*metaPtr\<close> copied the map reference, and both errors hold map 0.
\<close>

theorem C4_WrapWithType_copy_counterexample:
  "WrapWithType Sprintf_example heap_meta stack_save (Some (BaseErr 0))
       ''save failed'' ''IOError'' [] = Inr (heap_meta_wrapped, 1) \<and>
   GetMetadata heap_meta_wrapped (Some (BaseErr 0)) = Inr (Some 0) \<and>
   entries heap_meta_wrapped (load_Metadata heap_meta_wrapped 0) ''attempt'' = Some (AInt 1) \<and>
   WithMetadata heap_meta_wrapped 1 (Some 2) = Inr (heap_meta_updated, 1) \<and>
   GetMetadata heap_meta_updated (Some (BaseErr 0)) = Inr (Some 0) \<and>
   entries heap_meta_updated (load_Metadata heap_meta_updated 0) ''attempt'' = Some (AInt 2) \<and>
   load_Metadata heap_meta_wrapped 1 = load_Metadata heap_meta_wrapped 0"
  using heap_meta_wrapped_facts(1) heap_meta_updated_facts(1)
  by (simp add: heap_meta_wrapped_facts heap_meta_updated_facts GetMetadata_def deref_def
      load_Metadata_def entries_def)

text \<open>
  Claim C4, amended: \<open>WrapWithType(err, message, type)\<close> returns a new error with
  \<open>err\<close> as its cause and always stores the given type tag. Its metadata field gets the map reference held by the \<open>baseError\<close> that
  \<open>errors.As\<close> finds behind \<open>err\<close> (the same map, by reference, as \<open>Wrap\<close> does), and a
  new empty map when there is no such error. So after \<open>WrapWithType\<close>,
  \<open>WithMetadata(M2)\<close> on the wrapper is visible through the wrapped error, whose
  metadata becomes its old entries overridden by \<open>M2\<close>.
\<close>

theorem C4_WrapWithType_tag_and_shared_map:
  assumes "\<forall>a. As err = Some a \<longrightarrow> a < nobjs h"
  shows "\<exists>h1 w.
           WrapWithType sprintf h cs err message tag args = Inr (h1, w) \<and>
           w = nobjs h \<and> nobjs h1 = Suc (nobjs h) \<and> Unwrap h1 w = Inr err \<and>
           typeStr (objs h1 w) = tag \<and>
           Type h1 w = Inr (if tag \<noteq> '''' then tag else reflect_TypeOf_String) \<and>
           (As err = None \<longrightarrow>
              load_Metadata h1 w = Some (nmaps h) \<and> entries h1 (load_Metadata h1 w) = Map.empty) \<and>
           (\<forall>a. As err = Some a \<longrightarrow>
              w \<noteq> a \<and> objs h1 a = objs h a \<and>
              load_Metadata h1 w = load_Metadata h a \<and>
              load_Metadata h1 a = load_Metadata h a) \<and>
           (\<forall>a r. As err = Some a \<and> load_Metadata h a = Some r \<longrightarrow>
              (\<exists>h2. WithMetadata h1 w meta = Inr (h2, w) \<and>
                    load_Metadata h2 a = Some r \<and> load_Metadata h2 w = Some r \<and>
                    entries h2 (load_Metadata h2 a) = entries h1 (Some r) ++ entries h1 meta))"
proof (cases "As err")
  case None
  then show ?thesis
    by (simp add: WrapWithType_result Type_def Unwrap_def deref_def load_Metadata_def
        entries_def)
next
  case (Some a)
  with assms have a: "a < nobjs h" by simp
  define e where "e = \<lparr>cause = err, msg = sprintf message args, typeStr = tag,
      stacktrace = getStack 0 cs, metadata = metadata (objs h a)\<rparr>"
  define h1 where "h1 = h\<lparr>objs := (objs h)(nobjs h := e), nobjs := Suc (nobjs h),
      maps := (maps h)(nmaps h := Map.empty), nmaps := Suc (nmaps h)\<rparr>"
  have R: "WrapWithType sprintf h cs err message tag args = Inr (h1, nobjs h)"
    using Some a by (simp add: WrapWithType_result h1_def e_def)
  have N: "nobjs h1 = Suc (nobjs h)" "Unwrap h1 (nobjs h) = Inr err"
    "nobjs h \<noteq> a" "objs h1 a = objs h a"
    using a by (simp_all add: h1_def e_def Unwrap_def deref_def)
  have T: "typeStr (objs h1 (nobjs h)) = tag"
    "Type h1 (nobjs h) = Inr (if tag \<noteq> '''' then tag else reflect_TypeOf_String)"
    by (simp_all add: h1_def e_def Type_def deref_def)
  have L: "load_Metadata h1 (nobjs h) = load_Metadata h a" "load_Metadata h1 a = load_Metadata h a"
    using a by (simp_all add: h1_def e_def load_Metadata_def)
  have S: "\<exists>h2. WithMetadata h1 (nobjs h) meta = Inr (h2, nobjs h) \<and>
                load_Metadata h2 a = Some r \<and> load_Metadata h2 (nobjs h) = Some r \<and>
                entries h2 (load_Metadata h2 a) = entries h1 (Some r) ++ entries h1 meta"
    if r: "load_Metadata h a = Some r" for r
  proof -
    have "metadata e = Some r" using r by (simp add: e_def load_Metadata_def)
    from alloc_shared_WithMetadata[OF a r this, of h1 meta] show ?thesis
      by (simp add: h1_def)
  qed
  from R N T L S Some show ?thesis by auto
qed

theorem C4_WrapWithType_tag_and_shared_map_witness:
  "As (Some (BaseErr 0)) = Some 0 \<and> 0 < nobjs heap_meta \<and>
   (\<exists>h1 w h2.
      WrapWithType Sprintf_example heap_meta stack_save (Some (BaseErr 0))
        ''save failed'' ''IOError'' [] = Inr (h1, w) \<and>
      Type h1 w = Inr ''IOError'' \<and>
      load_Metadata h1 w = load_Metadata h1 0 \<and>
      WithMetadata h1 w (Some 2) = Inr (h2, w) \<and>
      entries h2 (load_Metadata h2 0) ''attempt'' = Some (AInt 2))"
proof -
  have A: "\<forall>a. As (Some (BaseErr 0)) = Some a \<longrightarrow> a < nobjs heap_meta"
    by (simp add: heap_meta_facts)
  from C4_WrapWithType_tag_and_shared_map[OF A, of Sprintf_example stack_save
      "''save failed''" "''IOError''" "[]" "Some 2"]
  obtain h1 w where 1: "WrapWithType Sprintf_example heap_meta stack_save (Some (BaseErr 0))
        ''save failed'' ''IOError'' [] = Inr (h1, w)"
    and 2: "Type h1 w = Inr ''IOError''"
    and 3: "load_Metadata h1 w = load_Metadata heap_meta 0"
           "load_Metadata h1 0 = load_Metadata heap_meta 0"
    and 4: "\<exists>h2. WithMetadata h1 w (Some 2) = Inr (h2, w) \<and>
                entries h2 (load_Metadata h2 0) = entries h1 (Some 0) ++ entries h1 (Some 2)"
    by (auto simp: heap_meta_facts load_Metadata_def)
  then obtain h2 where 5: "WithMetadata h1 w (Some 2) = Inr (h2, w)"
    and 6: "entries h2 (load_Metadata h2 0) = entries h1 (Some 0) ++ entries h1 (Some 2)"
    by blast
  have "maps h1 2 = [''attempt'' \<mapsto> AInt 2]"
    using 1 by (auto simp: WrapWithType_result heap_meta_facts)
  with 6 have "entries h2 (load_Metadata h2 0) ''attempt'' = Some (AInt 2)"
    by (simp add: entries_def)
  with 1 2 3 5 show ?thesis by (auto simp: heap_meta_facts)
qed

theorem C10_Wrap_shares_metadata_map_witness:
  "As (Some (BaseErr 0)) = Some 0 \<and> 0 < nobjs heap_meta \<and>
   load_Metadata heap_meta 0 = Some 0 \<and>
   entries heap_meta (load_Metadata heap_meta 0) ''attempt'' = Some (AInt 1) \<and>
   (\<exists>h1 h2.
      Wrap Sprintf_example heap_meta stack_handle (Some (BaseErr 0)) ''request failed'' []
        = Inr (h1, 1) \<and>
      Unwrap h1 1 = Inr (Some (BaseErr 0)) \<and>
      load_Metadata h1 1 = load_Metadata h1 0 \<and>
      WithMetadata h1 1 (Some 2) = Inr (h2, 1) \<and>
      GetMetadata h2 (Some (BaseErr 0)) = Inr (Some 0) \<and>
      entries h2 (load_Metadata h2 0) ''attempt'' = Some (AInt 2))"
proof -
  have A: "As (Some (BaseErr 0)) = Some 0" by simp
  have n: "0 < nobjs heap_meta" by (simp add: heap_meta_facts)
  have L: "load_Metadata heap_meta 0 = Some 0"
    by (simp add: load_Metadata_def heap_meta_facts)
  have before: "entries heap_meta (load_Metadata heap_meta 0) ''attempt'' = Some (AInt 1)"
    by (simp add: L entries_def heap_meta_facts)
  have M2: "entries heap_meta (Some 2) ''attempt'' = Some (AInt 2)"
    by (simp add: entries_def heap_meta_facts)
  from C10_Wrap_shares_metadata_map[OF A n L, of Sprintf_example stack_handle
      "''request failed''" "[]" "Some 2"]
  obtain h1 w h2 where
    1: "Wrap Sprintf_example heap_meta stack_handle (Some (BaseErr 0)) ''request failed'' []
          = Inr (h1, w)"
    and 2: "w = nobjs heap_meta"
    and 3: "Unwrap h1 w = Inr (Some (BaseErr 0))"
    and 4: "load_Metadata h1 w = Some 0" "load_Metadata h1 0 = Some 0"
    and 5: "WithMetadata h1 w (Some 2) = Inr (h2, w)"
    and 6: "GetMetadata h2 (Some (BaseErr 0)) = Inr (Some 0)"
    and 7: "\<forall>k v. entries heap_meta (Some 2) k = Some v \<longrightarrow>
              entries h2 (load_Metadata h2 0) k = Some v"
    by blast
  from 2 have w: "w = 1" by (simp add: heap_meta_facts)
  from 7 M2 have 8: "entries h2 (load_Metadata h2 0) ''attempt'' = Some (AInt 2)" by blast
  have "\<exists>h1 h2.
      Wrap Sprintf_example heap_meta stack_handle (Some (BaseErr 0)) ''request failed'' []
        = Inr (h1, 1) \<and>
      Unwrap h1 1 = Inr (Some (BaseErr 0)) \<and>
      load_Metadata h1 1 = load_Metadata h1 0 \<and>
      WithMetadata h1 1 (Some 2) = Inr (h2, 1) \<and>
      GetMetadata h2 (Some (BaseErr 0)) = Inr (Some 0) \<and>
      entries h2 (load_Metadata h2 0) ''attempt'' = Some (AInt 2)"
    using 1 3 4 5 6 8 unfolding w
    by (intro exI[of _ h1] exI[of _ h2]) simp
  with A n L before show ?thesis by (intro conjI)
qed

subsection \<open>Sentinels\<close>

lemma NewWithType_result:
  "NewWithType sprintf h cs m tag args =
     (h\<lparr>objs := (objs h)(nobjs h := \<lparr>cause = None, msg = sprintf m args,
                        typeStr = tag, stacktrace = getStack 0 cs,
                        metadata = Some (nmaps h)\<rparr>), nobjs := Suc (nobjs h),
                 maps := (maps h)(nmaps h := Map.empty), nmaps := Suc (nmaps h)\<rparr>, nobjs h)"
  by (simp add: NewWithType_def alloc_obj_def alloc_map_def Let_def)

lemma NewSentinel_result:
  "NewSentinel h tag m =
     (h\<lparr>objs := (objs h)(nobjs h := \<lparr>cause = None, msg = m, typeStr = tag,
                        stacktrace = [], metadata = Some (nmaps h)\<rparr>), nobjs := Suc (nobjs h),
                 maps := (maps h)(nmaps h := Map.empty), nmaps := Suc (nmaps h)\<rparr>, nobjs h)"
  by (simp add: NewSentinel_def alloc_obj_def alloc_map_def Let_def)

lemma SentinelWithStack_base:
  assumes "As err = Some a" and "a < nobjs h"
  shows "SentinelWithStack h cs err =
           Inr (h\<lparr>objs := (objs h)(a := (objs h a)\<lparr>stacktrace := []\<rparr>,
                    nobjs h := \<lparr>cause = Some (BaseErr a), msg = msg (objs h a),
                      typeStr = typeStr (objs h a), stacktrace = getStack 0 cs,
                      metadata = metadata (objs h a)\<rparr>),
                  nobjs := Suc (nobjs h)\<rparr>, nobjs h)"
  using assms by (simp add: SentinelWithStack_def deref_def alloc_obj_def Let_def)

lemma Is_through_cause:
  assumes "r < nobjs h" and "cause (objs h r) = Some (BaseErr s)"
  shows "Is h (Some (BaseErr r)) (Some (BaseErr s)) = Some (Inr True)"
proof (cases "r = s")
  case True
  then show ?thesis by (simp add: Is_def is_loop.simps)
next
  case False
  have "is_loop h (BaseErr s) (BaseErr s) = Some (Inr True)"
    by (subst is_loop.simps) simp
  with False assms have "is_loop h (BaseErr r) (BaseErr s) = Some (Inr True)"
    by (subst is_loop.simps) (simp add: deref_def)
  then show ?thesis by (simp add: Is_def)
qed

lemma SentinelWithStack_once:
  assumes "s < nobjs h"
  shows "\<exists>h1. SentinelWithStack h cs (Some (BaseErr s)) = Inr (h1, nobjs h) \<and>
           nobjs h1 = Suc (nobjs h) \<and>
           objs h1 s = (objs h s)\<lparr>stacktrace := []\<rparr> \<and>
           (\<forall>b. b < nobjs h \<and> b \<noteq> s \<longrightarrow> objs h1 b = objs h b) \<and>
           maps h1 = maps h \<and> nmaps h1 = nmaps h \<and>
           cause (objs h1 (nobjs h)) = Some (BaseErr s) \<and>
           msg (objs h1 (nobjs h)) = msg (objs h s) \<and>
           typeStr (objs h1 (nobjs h)) = typeStr (objs h s) \<and>
           stacktrace (objs h1 (nobjs h)) = getStack 0 cs \<and>
           metadata (objs h1 (nobjs h)) = metadata (objs h s)"
  using assms by (simp add: SentinelWithStack_base)
lemma heap_sentinel_facts:
  "NewSentinel empty_heap ''ErrNotFound'' ''not found'' = (heap_sentinel, 0)"
  "nobjs heap_sentinel = Suc 0"
  "objs heap_sentinel 0 = \<lparr>cause = None, msg = ''not found'', typeStr = ''ErrNotFound'',
      stacktrace = [], metadata = Some 0\<rparr>"
  by (simp_all add: heap_sentinel_def NewSentinel_result empty_heap_def)

lemma heap_sentinel_used_facts:
  "SentinelWithStack heap_sentinel stack_save (Some (BaseErr 0)) = Inr (heap_sentinel_used, Suc 0)"
  "nobjs heap_sentinel_used = Suc (Suc 0)"
  "stacktrace (objs heap_sentinel_used (Suc 0)) = getStack 0 stack_save"
  "objs heap_sentinel_used 0 = \<lparr>cause = None, msg = ''not found'', typeStr = ''ErrNotFound'',
      stacktrace = [], metadata = Some 0\<rparr>"
  by (simp_all add: heap_sentinel_used_def SentinelWithStack_base heap_sentinel_facts)

lemma heap_sentinel_used_twice_facts:
  "SentinelWithStack heap_sentinel_used stack_save (Some (BaseErr 0)) =
     Inr (heap_sentinel_used_twice, Suc (Suc 0))"
  "nobjs heap_sentinel_used_twice = Suc (Suc (Suc 0))"
  "stacktrace (objs heap_sentinel_used_twice (Suc 0)) = getStack 0 stack_save"
  "stacktrace (objs heap_sentinel_used_twice (Suc (Suc 0))) = getStack 0 stack_save"
  "objs heap_sentinel_used_twice 0 = \<lparr>cause = None, msg = ''not found'',
      typeStr = ''ErrNotFound'', stacktrace = [], metadata = Some 0\<rparr>"
  by (simp_all add: heap_sentinel_used_twice_def SentinelWithStack_base heap_sentinel_used_facts)

lemma getStack_starts_at_caller:
  assumes "2 \<le> length cs"
  shows "getStack 0 cs \<noteq> [] \<and> hd (getStack 0 cs) = hd cs"
proof -
  from assms obtain x y rest where "cs = x # y # rest"
    by (cases cs; cases "tl cs") auto
  then show ?thesis by (simp add: getStack_0)
qed

lemma getStack_prefix:
  "prefix (getStack 0 cs) cs" "min (length cs) 32 - 1 \<le> length (getStack 0 cs)"
proof -
  have "prefix (butlast (take 32 cs)) (take 32 cs)" by (rule prefixeq_butlast)
  moreover have "prefix (take 32 cs) cs" by (rule take_is_prefix)
  ultimately show "prefix (getStack 0 cs) cs" by (simp add: getStack_0)
  show "min (length cs) 32 - 1 \<le> length (getStack 0 cs)" by (simp add: length_getStack_0)
qed

text \<open>
  Claim C5, as the specification words it: two calls of \<open>SentinelWithStack\<close> on a
  sentinel yield different traces. Two calls made from one and the same call stack, as
  in a loop, yield equal traces: the trace is what \<open>getStack\<close> reads from the stack
  of the call and nothing else.
\<close>

theorem C5_distinct_traces_counterexample:
  "NewSentinel empty_heap ''ErrNotFound'' ''not found'' = (heap_sentinel, 0) \<and>
   SentinelWithStack heap_sentinel stack_save (Some (BaseErr 0)) = Inr (heap_sentinel_used, 1) \<and>
   SentinelWithStack heap_sentinel_used stack_save (Some (BaseErr 0)) =
     Inr (heap_sentinel_used_twice, 2) \<and>
   StackTrace heap_sentinel_used_twice 1 = Inr (getStack 0 stack_save) \<and>
   StackTrace heap_sentinel_used_twice 1 = StackTrace heap_sentinel_used_twice 2"
  using heap_sentinel_facts(1) heap_sentinel_used_facts(1) heap_sentinel_used_twice_facts(1)
  by (simp add: StackTrace_def deref_def heap_sentinel_used_twice_facts numeral_2_eq_2)

text \<open>
  Claim C5, amended: let \<open>s\<close> be a sentinel made by \<open>NewSentinel\<close>, in the heap that
  \<open>NewSentinel\<close> returned or in any later one. Every call \<open>SentinelWithStack(s)\<close>
  returns a new error \<open>r\<close>, different from \<open>s\<close> and from the result of every other
  call, with \<open>Type()\<close> equal to that of \<open>s\<close>, the message of \<open>s\<close> and \<open>s\<close> as its
  cause, so that \<open>Is(r, s)\<close> is true; \<open>s\<close> keeps its type tag and message, so the same
  holds for the next call. The trace of \<open>r\<close> is the one \<open>getStack\<close> captures at the
  call: frames of the caller's stack, from the caller outwards, all of the first 32
  but at most one. It is non-empty and starts with the caller's frame whenever the
  caller's stack has a frame above the caller's, as it has for every call whose result
  is received.
  Two calls get different traces exactly when \<open>getStack\<close> captures different stacks;
  two calls made from the same call stack get equal traces.
\<close>

theorem C5_SentinelWithStack_type_message_Is:
  assumes "s < nobjs h"
  shows "\<exists>h1 r1 h2 r2.
           SentinelWithStack h cs1 (Some (BaseErr s)) = Inr (h1, r1) \<and>
           SentinelWithStack h1 cs2 (Some (BaseErr s)) = Inr (h2, r2) \<and>
           r1 = nobjs h \<and> r2 = nobjs h1 \<and> r1 \<noteq> r2 \<and> r1 \<noteq> s \<and> r2 \<noteq> s \<and>
           s < nobjs h1 \<and> s < nobjs h2 \<and>
           Type h1 s = Type h s \<and> Type h2 s = Type h s \<and>
           msg (objs h1 s) = msg (objs h s) \<and> msg (objs h2 s) = msg (objs h s) \<and>
           Type h1 r1 = Type h s \<and> Type h2 r1 = Type h s \<and> Type h2 r2 = Type h s \<and>
           msg (objs h1 r1) = msg (objs h s) \<and> msg (objs h2 r1) = msg (objs h s) \<and>
           msg (objs h2 r2) = msg (objs h s) \<and>
           Unwrap h1 r1 = Inr (Some (BaseErr s)) \<and> Unwrap h2 r1 = Inr (Some (BaseErr s)) \<and>
           Unwrap h2 r2 = Inr (Some (BaseErr s)) \<and>
           Is h1 (Some (BaseErr r1)) (Some (BaseErr s)) = Some (Inr True) \<and>
           Is h2 (Some (BaseErr r1)) (Some (BaseErr s)) = Some (Inr True) \<and>
           Is h2 (Some (BaseErr r2)) (Some (BaseErr s)) = Some (Inr True) \<and>
           StackTrace h1 r1 = Inr (getStack 0 cs1) \<and>
           StackTrace h2 r1 = Inr (getStack 0 cs1) \<and>
           StackTrace h2 r2 = Inr (getStack 0 cs2) \<and>
           prefix (getStack 0 cs1) cs1 \<and> prefix (getStack 0 cs2) cs2 \<and>
           min (length cs1) 32 - 1 \<le> length (getStack 0 cs1) \<and>
           min (length cs2) 32 - 1 \<le> length (getStack 0 cs2) \<and>
           (2 \<le> length cs1 \<longrightarrow> getStack 0 cs1 \<noteq> [] \<and> hd (getStack 0 cs1) = hd cs1) \<and>
           (2 \<le> length cs2 \<longrightarrow> getStack 0 cs2 \<noteq> [] \<and> hd (getStack 0 cs2) = hd cs2) \<and>
           (StackTrace h2 r1 = StackTrace h2 r2 \<longleftrightarrow> getStack 0 cs1 = getStack 0 cs2) \<and>
           (cs1 = cs2 \<longrightarrow> StackTrace h2 r1 = StackTrace h2 r2) \<and>
           (\<forall>h0 tag message. NewSentinel h0 tag message = (h, s) \<longrightarrow>
              msg (objs h s) = message \<and>
              Type h s = Inr (if tag \<noteq> '''' then tag else reflect_TypeOf_String))"
proof -
  note sh = assms
  from SentinelWithStack_once[OF sh, of cs1] obtain h1 where
    1: "SentinelWithStack h cs1 (Some (BaseErr s)) = Inr (h1, nobjs h)"
    and n1: "nobjs h1 = Suc (nobjs h)"
    and s1: "objs h1 s = (objs h s)\<lparr>stacktrace := []\<rparr>"
    and c1: "cause (objs h1 (nobjs h)) = Some (BaseErr s)"
    and m1: "msg (objs h1 (nobjs h)) = msg (objs h s)"
    and t1: "typeStr (objs h1 (nobjs h)) = typeStr (objs h s)"
    and st1: "stacktrace (objs h1 (nobjs h)) = getStack 0 cs1"
    by blast
  from sh n1 have sh1: "s < nobjs h1" by simp
  from SentinelWithStack_once[OF sh1, of cs2] obtain h2 where
    2: "SentinelWithStack h1 cs2 (Some (BaseErr s)) = Inr (h2, nobjs h1)"
    and n2: "nobjs h2 = Suc (nobjs h1)"
    and s2: "objs h2 s = (objs h1 s)\<lparr>stacktrace := []\<rparr>"
    and f2: "\<forall>b. b < nobjs h1 \<and> b \<noteq> s \<longrightarrow> objs h2 b = objs h1 b"
    and c2: "cause (objs h2 (nobjs h1)) = Some (BaseErr s)"
    and m2: "msg (objs h2 (nobjs h1)) = msg (objs h1 s)"
    and t2: "typeStr (objs h2 (nobjs h1)) = typeStr (objs h1 s)"
    and st2: "stacktrace (objs h2 (nobjs h1)) = getStack 0 cs2"
    by blast
  from sh1 n2 have sh2: "s < nobjs h2" by simp
  from f2 n1 sh have keep: "objs h2 (nobjs h) = objs h1 (nobjs h)" by simp
  have ne: "nobjs h \<noteq> nobjs h1" "nobjs h \<noteq> s" "nobjs h1 \<noteq> s"
    using n1 sh by simp_all
  have Ts: "Type h1 s = Type h s" "Type h2 s = Type h s"
    using sh sh1 sh2 s1 s2 by (simp_all add: Type_def deref_def)
  have Ms: "msg (objs h1 s) = msg (objs h s)" "msg (objs h2 s) = msg (objs h s)"
    using s1 s2 by simp_all
  have T: "Type h1 (nobjs h) = Type h s" "Type h2 (nobjs h) = Type h s"
    "Type h2 (nobjs h1) = Type h s"
    using sh n1 n2 t1 t2 s1 keep by (simp_all add: Type_def deref_def)
  have M: "msg (objs h1 (nobjs h)) = msg (objs h s)" "msg (objs h2 (nobjs h)) = msg (objs h s)"
    "msg (objs h2 (nobjs h1)) = msg (objs h s)"
    using m1 m2 s1 keep by simp_all
  have U: "Unwrap h1 (nobjs h) = Inr (Some (BaseErr s))"
    "Unwrap h2 (nobjs h) = Inr (Some (BaseErr s))"
    "Unwrap h2 (nobjs h1) = Inr (Some (BaseErr s))"
    using n1 n2 c1 c2 keep by (simp_all add: Unwrap_def deref_def)
  have I1: "Is h1 (Some (BaseErr (nobjs h))) (Some (BaseErr s)) = Some (Inr True)"
    using n1 c1 by (intro Is_through_cause) simp_all
  have I2: "Is h2 (Some (BaseErr (nobjs h))) (Some (BaseErr s)) = Some (Inr True)"
    using n1 n2 c1 keep by (intro Is_through_cause) simp_all
  have I3: "Is h2 (Some (BaseErr (nobjs h1))) (Some (BaseErr s)) = Some (Inr True)"
    using n2 c2 by (intro Is_through_cause) simp_all
  have S: "StackTrace h1 (nobjs h) = Inr (getStack 0 cs1)"
    "StackTrace h2 (nobjs h) = Inr (getStack 0 cs1)"
    "StackTrace h2 (nobjs h1) = Inr (getStack 0 cs2)"
    using n1 n2 st1 st2 keep by (simp_all add: StackTrace_def deref_def)
  have G: "2 \<le> length cs1 \<longrightarrow> getStack 0 cs1 \<noteq> [] \<and> hd (getStack 0 cs1) = hd cs1"
    "2 \<le> length cs2 \<longrightarrow> getStack 0 cs2 \<noteq> [] \<and> hd (getStack 0 cs2) = hd cs2"
    using getStack_starts_at_caller by blast+
  from S have D: "StackTrace h2 (nobjs h) = StackTrace h2 (nobjs h1) \<longleftrightarrow>
      getStack 0 cs1 = getStack 0 cs2"
    "cs1 = cs2 \<longrightarrow> StackTrace h2 (nobjs h) = StackTrace h2 (nobjs h1)"
    by simp_all
  have N: "\<forall>h0 tag message. NewSentinel h0 tag message = (h, s) \<longrightarrow>
              msg (objs h s) = message \<and>
              Type h s = Inr (if tag \<noteq> '''' then tag else reflect_TypeOf_String)"
    by (auto simp: NewSentinel_result Type_def deref_def)
  show ?thesis
    by (rule exI[of _ h1], rule exI[of _ "nobjs h"], rule exI[of _ h2],
        rule exI[of _ "nobjs h1"])
       (intro conjI 1 2 refl ne sh1 sh2 Ts Ms T M U I1 I2 I3 S getStack_prefix G D N)
qed

theorem C5_SentinelWithStack_type_message_Is_witness:
  "NewSentinel empty_heap ''ErrNotFound'' ''not found'' = (heap_sentinel, 0) \<and>
   0 < nobjs heap_sentinel \<and>
   (\<exists>h1 h2.
      SentinelWithStack heap_sentinel stack_save (Some (BaseErr 0)) = Inr (h1, 1) \<and>
      SentinelWithStack h1 stack_handle (Some (BaseErr 0)) = Inr (h2, 2) \<and>
      Type h2 1 = Inr ''ErrNotFound'' \<and> Type h2 2 = Inr ''ErrNotFound'' \<and>
      msg (objs h2 1) = ''not found'' \<and> msg (objs h2 2) = ''not found'' \<and>
      Is h2 (Some (BaseErr 1)) (Some (BaseErr 0)) = Some (Inr True) \<and>
      Is h2 (Some (BaseErr 2)) (Some (BaseErr 0)) = Some (Inr True) \<and>
      StackTrace h2 1 = Inr (getStack 0 stack_save) \<and>
      StackTrace h2 2 = Inr (getStack 0 stack_handle) \<and>
      StackTrace h2 1 \<noteq> StackTrace h2 2) \<and>
   0 < nobjs heap_sentinel_used_twice \<and>
   (\<exists>h1. SentinelWithStack heap_sentinel_used_twice stack_handle (Some (BaseErr 0)) = Inr (h1, 3) \<and>
      Type h1 3 = Inr ''ErrNotFound'' \<and> msg (objs h1 3) = ''not found'' \<and>
      Is h1 (Some (BaseErr 3)) (Some (BaseErr 0)) = Some (Inr True) \<and>
      StackTrace h1 3 = Inr (getStack 0 stack_handle))"
proof -
  have n0: "0 < nobjs heap_sentinel" by (simp add: heap_sentinel_facts)
  have T0: "Type heap_sentinel 0 = Inr ''ErrNotFound''" "msg (objs heap_sentinel 0) = ''not found''"
    by (simp_all add: Type_def deref_def heap_sentinel_facts)
  have diff: "getStack 0 stack_save \<noteq> getStack 0 stack_handle"
    by (simp add: getStack_stack_save getStack_stack_handle)
  from C5_SentinelWithStack_type_message_Is[OF n0, of stack_save stack_handle]
  obtain h1 r1 h2 r2 where a:
    "SentinelWithStack heap_sentinel stack_save (Some (BaseErr 0)) = Inr (h1, r1)"
    "SentinelWithStack h1 stack_handle (Some (BaseErr 0)) = Inr (h2, r2)"
    "r1 = nobjs heap_sentinel" "r2 = nobjs h1"
    "Type h2 r1 = Type heap_sentinel 0" "Type h2 r2 = Type heap_sentinel 0"
    "msg (objs h2 r1) = msg (objs heap_sentinel 0)"
    "msg (objs h2 r2) = msg (objs heap_sentinel 0)"
    "Is h2 (Some (BaseErr r1)) (Some (BaseErr 0)) = Some (Inr True)"
    "Is h2 (Some (BaseErr r2)) (Some (BaseErr 0)) = Some (Inr True)"
    "StackTrace h2 r1 = Inr (getStack 0 stack_save)"
    "StackTrace h2 r2 = Inr (getStack 0 stack_handle)"
    by blast
  from a(1,3) have r1: "r1 = 1" and nh1: "nobjs h1 = 2"
    by (auto simp: heap_sentinel_facts SentinelWithStack_base)
  with a(4) have r2: "r2 = 2" by simp
  have A: "\<exists>h1 h2.
      SentinelWithStack heap_sentinel stack_save (Some (BaseErr 0)) = Inr (h1, 1) \<and>
      SentinelWithStack h1 stack_handle (Some (BaseErr 0)) = Inr (h2, 2) \<and>
      Type h2 1 = Inr ''ErrNotFound'' \<and> Type h2 2 = Inr ''ErrNotFound'' \<and>
      msg (objs h2 1) = ''not found'' \<and> msg (objs h2 2) = ''not found'' \<and>
      Is h2 (Some (BaseErr 1)) (Some (BaseErr 0)) = Some (Inr True) \<and>
      Is h2 (Some (BaseErr 2)) (Some (BaseErr 0)) = Some (Inr True) \<and>
      StackTrace h2 1 = Inr (getStack 0 stack_save) \<and>
      StackTrace h2 2 = Inr (getStack 0 stack_handle) \<and>
      StackTrace h2 1 \<noteq> StackTrace h2 2"
    using a diff unfolding r1 r2 T0
    by (intro exI[of _ h1] exI[of _ h2]) simp
  have n3: "0 < nobjs heap_sentinel_used_twice" by (simp add: heap_sentinel_used_twice_facts)
  have T3: "Type heap_sentinel_used_twice 0 = Inr ''ErrNotFound''"
    "msg (objs heap_sentinel_used_twice 0) = ''not found''"
    by (simp_all add: Type_def deref_def heap_sentinel_used_twice_facts)
  from C5_SentinelWithStack_type_message_Is[OF n3, of stack_handle stack_handle]
  obtain k1 q1 where b:
    "SentinelWithStack heap_sentinel_used_twice stack_handle (Some (BaseErr 0)) = Inr (k1, q1)"
    "q1 = nobjs heap_sentinel_used_twice"
    "Type k1 q1 = Type heap_sentinel_used_twice 0"
    "msg (objs k1 q1) = msg (objs heap_sentinel_used_twice 0)"
    "Is k1 (Some (BaseErr q1)) (Some (BaseErr 0)) = Some (Inr True)"
    "StackTrace k1 q1 = Inr (getStack 0 stack_handle)"
    by blast
  from b(2) have q1: "q1 = 3" by (simp add: heap_sentinel_used_twice_facts)
  have B: "\<exists>h1. SentinelWithStack heap_sentinel_used_twice stack_handle (Some (BaseErr 0)) = Inr (h1, 3) \<and>
      Type h1 3 = Inr ''ErrNotFound'' \<and> msg (objs h1 3) = ''not found'' \<and>
      Is h1 (Some (BaseErr 3)) (Some (BaseErr 0)) = Some (Inr True) \<and>
      StackTrace h1 3 = Inr (getStack 0 stack_handle)"
    using b unfolding q1 T3
    by (intro exI[of _ k1]) simp
  from heap_sentinel_facts(1) n0 A n3 B show ?thesis by (intro conjI)
qed

lemma heap_traced_facts:
  "nobjs heap_traced = Suc 0"
  "stacktrace (objs heap_traced 0) = getStack 0 stack_save"
  by (simp_all add: heap_traced_def NewWithType_result empty_heap_def)

lemma heap_traced_used_facts:
  "SentinelWithStack heap_traced stack_handle (Some (BaseErr 0)) = Inr (heap_traced_used, Suc 0)"
  "nobjs heap_traced_used = Suc (Suc 0)"
  "stacktrace (objs heap_traced_used 0) = []"
  by (simp_all add: heap_traced_used_def SentinelWithStack_base heap_traced_facts)

text \<open>
  Claim C6, as the specification words it: \<open>SentinelWithStack\<close> never mutates its
  argument and leaves every field of the sentinel, the \<open>stacktrace\<close> field included,
  unchanged. A sentinel made at package level by \<open>NewWithType\<close> has a trace of three
  frames; after \<open>SentinelWithStack\<close> on it that trace is gone.
\<close>

theorem C6_argument_unchanged_counterexample:
  "StackTrace heap_traced 0 = Inr (getStack 0 stack_save) \<and>
   length (getStack 0 stack_save) = 3 \<and>
   SentinelWithStack heap_traced stack_handle (Some (BaseErr 0)) = Inr (heap_traced_used, 1) \<and>
   StackTrace heap_traced_used 0 = Inr [] \<and>
   objs heap_traced_used 0 \<noteq> objs heap_traced 0"
proof -
  have len: "length (getStack 0 stack_save) = 3"
    by (simp add: getStack_0 stack_save_def)
  then have "stacktrace (objs heap_traced_used 0) \<noteq> stacktrace (objs heap_traced 0)"
    by (auto simp: heap_traced_facts heap_traced_used_facts)
  then have "objs heap_traced_used 0 \<noteq> objs heap_traced 0" by auto
  with len heap_traced_used_facts(1) show ?thesis
    by (simp add: StackTrace_def deref_def heap_traced_facts heap_traced_used_facts)
qed

text \<open>
  Claim C6, amended: \<open>SentinelWithStack\<close> assigns nil to the \<open>stacktrace\<close> field of the
  \<open>baseError\<close> found in its argument and changes nothing else: the other fields of
  that error, every other error and every map stay as they were, and the result is a
  new error that carries the fresh trace. When the trace of the argument is already
  empty, as it is for a sentinel made by \<open>NewSentinel\<close>, every field of the argument
  is unchanged.
\<close>

theorem C6_SentinelWithStack_clears_only_stacktrace:
  assumes "As err = Some a" and "a < nobjs h"
  shows "\<exists>h' r.
           SentinelWithStack h cs err = Inr (h', r) \<and>
           r = nobjs h \<and> r \<noteq> a \<and> nobjs h' = Suc (nobjs h) \<and>
           objs h' a = (objs h a)\<lparr>stacktrace := []\<rparr> \<and>
           (\<forall>b. b < nobjs h \<and> b \<noteq> a \<longrightarrow> objs h' b = objs h b) \<and>
           maps h' = maps h \<and> nmaps h' = nmaps h \<and>
           StackTrace h' r = Inr (getStack 0 cs) \<and>
           (stacktrace (objs h a) = [] \<longrightarrow> objs h' a = objs h a) \<and>
           (\<forall>h0 tag message. NewSentinel h0 tag message = (h, a) \<longrightarrow> objs h' a = objs h a)"
proof -
  define h' where "h' = h\<lparr>objs := (objs h)(a := (objs h a)\<lparr>stacktrace := []\<rparr>,
      nobjs h := \<lparr>cause = Some (BaseErr a), msg = msg (objs h a),
        typeStr = typeStr (objs h a), stacktrace = getStack 0 cs,
        metadata = metadata (objs h a)\<rparr>), nobjs := Suc (nobjs h)\<rparr>"
  have R: "SentinelWithStack h cs err = Inr (h', nobjs h)"
    using assms by (simp add: SentinelWithStack_base h'_def)
  have ne: "nobjs h \<noteq> a" using assms(2) by simp
  have A: "objs h' a = (objs h a)\<lparr>stacktrace := []\<rparr>"
    using ne by (simp add: h'_def)
  have F: "\<forall>b. b < nobjs h \<and> b \<noteq> a \<longrightarrow> objs h' b = objs h b"
    by (simp add: h'_def)
  have M: "maps h' = maps h" "nmaps h' = nmaps h" "nobjs h' = Suc (nobjs h)"
    by (simp_all add: h'_def)
  have S: "StackTrace h' (nobjs h) = Inr (getStack 0 cs)"
    by (simp add: StackTrace_def deref_def h'_def)
  have E: "stacktrace (objs h a) = [] \<longrightarrow> objs h' a = objs h a"
    using A by simp
  have N: "\<forall>h0 tag message. NewSentinel h0 tag message = (h, a) \<longrightarrow> objs h' a = objs h a"
  proof (intro allI impI)
    fix h0 tag message
    assume "NewSentinel h0 tag message = (h, a)"
    then have "stacktrace (objs h a) = []" by (auto simp: NewSentinel_result)
    with E show "objs h' a = objs h a" by simp
  qed
  from R ne A F M S E N show ?thesis by simp
qed

theorem C6_SentinelWithStack_clears_only_stacktrace_witness:
  "As (Some (BaseErr 0)) = Some 0 \<and> 0 < nobjs heap_sentinel \<and>
   NewSentinel empty_heap ''ErrNotFound'' ''not found'' = (heap_sentinel, 0) \<and>
   (\<exists>h' r. SentinelWithStack heap_sentinel stack_save (Some (BaseErr 0)) = Inr (h', r) \<and>
      r = 1 \<and> objs h' 0 = objs heap_sentinel 0 \<and>
      StackTrace h' r = Inr (getStack 0 stack_save))"
proof -
  have A: "As (Some (BaseErr 0)) = Some 0" by simp
  have n: "0 < nobjs heap_sentinel" by (simp add: heap_sentinel_facts)
  from C6_SentinelWithStack_clears_only_stacktrace[OF A n, of stack_save]
    heap_sentinel_facts(1,2)
  have "\<exists>h' r. SentinelWithStack heap_sentinel stack_save (Some (BaseErr 0)) = Inr (h', r) \<and>
      r = 1 \<and> objs h' 0 = objs heap_sentinel 0 \<and>
      StackTrace h' r = Inr (getStack 0 stack_save)"
    by (metis One_nat_def)
  with A n heap_sentinel_facts(1) show ?thesis by blast
qed

subsection \<open>The older \<open>SentinelWithStack\<close>\<close>

lemma SentinelWithStack_old_copies:
  assumes "s < nobjs h" and "cause (objs h s) = None"
  shows "\<exists>h'. SentinelWithStack_old h cs (Some (BaseErr s)) = Inr (h', nobjs h) \<and>
           objs h' s = (objs h s)\<lparr>stacktrace := []\<rparr> \<and>
           msg (objs h' (nobjs h)) = msg (objs h s) \<and>
           typeStr (objs h' (nobjs h)) = typeStr (objs h s) \<and>
           Is h' (Some (BaseErr (nobjs h))) (Some (BaseErr s)) = Some (Inr False)"
proof -
  define h' where "h' = h\<lparr>objs := (objs h)(s := (objs h s)\<lparr>stacktrace := []\<rparr>,
      nobjs h := \<lparr>cause = cause (objs h s), msg = msg (objs h s),
        typeStr = typeStr (objs h s), stacktrace = getStack 0 cs, metadata = None\<rparr>),
      nobjs := Suc (nobjs h)\<rparr>"
  have R: "SentinelWithStack_old h cs (Some (BaseErr s)) = Inr (h', nobjs h)"
    using assms(1) by (simp add: SentinelWithStack_old_def deref_def alloc_obj_def h'_def)
  have ne: "nobjs h \<noteq> s" using assms(1) by simp
  have "is_loop h' (BaseErr (nobjs h)) (BaseErr s) = Some (Inr False)"
    using ne assms(2) by (subst is_loop.simps) (simp add: deref_def h'_def)
  then have I: "Is h' (Some (BaseErr (nobjs h))) (Some (BaseErr s)) = Some (Inr False)"
    by (simp add: Is_def)
  from R ne I show ?thesis by (auto simp: h'_def)
qed

subsection \<open>Panic capture\<close>

lemma trim_two_fresh:
  assumes "2 \<le> length (stacktrace e)"
  shows "trim_two (h\<lparr>objs := (objs h)(n := e), nobjs := Suc n\<rparr>) n =
           Inr (h\<lparr>objs := (objs h)(n := e\<lparr>stacktrace := drop 2 (stacktrace e)\<rparr>),
                  nobjs := Suc n\<rparr>)"
  using assms by (simp add: trim_two_def Let_def)

lemma trim_two_fresh_map:
  assumes "2 \<le> length (stacktrace e)"
  shows "trim_two (h\<lparr>objs := (objs h)(n := e), nobjs := Suc n, maps := ms, nmaps := k\<rparr>) n =
           Inr (h\<lparr>objs := (objs h)(n := e\<lparr>stacktrace := drop 2 (stacktrace e)\<rparr>),
                  nobjs := Suc n, maps := ms, nmaps := k\<rparr>)"
  using assms by (simp add: trim_two_def Let_def)

lemma getStack_two: "3 \<le> length cs \<Longrightarrow> 2 \<le> length (getStack 0 cs)"
  by (simp add: length_getStack_0)

lemma RecoverPanic_nil: "RecoverPanic sprintf h cs ANil slot = Inr (h, slot)"
  by (simp add: RecoverPanic_def)

lemma RecoverPanic_base:
  "RecoverPanic sprintf h cs (AErr (BaseErr a)) slot = Inr (h, Some (BaseErr a))"
  by (simp add: RecoverPanic_def)

lemma RecoverPanic_foreign:
  assumes "3 \<le> length cs" and "\<forall>a. As c = Some a \<longrightarrow> a < nobjs h"
  shows "\<exists>h'. RecoverPanic sprintf h cs (AErr (Foreign i s c)) slot =
                 Inr (h', Some (BaseErr (nobjs h))) \<and>
               nobjs h' = Suc (nobjs h) \<and>
               cause (objs h' (nobjs h)) = Some (Foreign i s c) \<and>
               msg (objs h' (nobjs h)) = sprintf ''caught panic'' [] \<and>
               stacktrace (objs h' (nobjs h)) = drop 2 (getStack 0 cs)"
proof (cases "As c")
  case None
  then show ?thesis
    using getStack_two[OF assms(1)]
    by (simp add: RecoverPanic_def Wrap_result trim_two_fresh_map)
next
  case (Some a)
  with assms(2) have "a < nobjs h" by simp
  with Some show ?thesis
    using getStack_two[OF assms(1)]
    by (simp add: RecoverPanic_def Wrap_result trim_two_fresh)
qed

lemma RecoverPanic_value:
  assumes "3 \<le> length cs" and "r \<noteq> ANil" and "\<forall>e. r \<noteq> AErr e"
  shows "\<exists>h'. RecoverPanic sprintf h cs r slot = Inr (h', Some (BaseErr (nobjs h))) \<and>
               nobjs h' = Suc (nobjs h) \<and>
               cause (objs h' (nobjs h)) = None \<and>
               msg (objs h' (nobjs h)) = sprintf (sprintf ''caught panic: %v'' [r]) [] \<and>
               stacktrace (objs h' (nobjs h)) = drop 2 (getStack 0 cs)"
  using assms getStack_two[OF assms(1)]
  by (cases r) (simp_all add: RecoverPanic_def New_result trim_two_fresh_map)

lemma RecoverPanic_short_stack:
  assumes "length cs < 3"
  shows "RecoverPanic sprintf h cs (AStr s) slot = Inl SliceOutOfRange"
proof -
  from assms have "length (getStack 0 cs) < 2" by (simp add: length_getStack_0)
  then show ?thesis by (simp add: RecoverPanic_def New_result trim_two_def Let_def)
qed

text \<open>
  Claim C7: \<open>RecoverPanic(r, errPtr)\<close> leaves the slot as it is when \<open>r\<close> is nil,
  and stores \<open>r\<close> itself when \<open>r\<close> is a \<open>*baseError\<close>. Any other error is wrapped:
  the new error has it as cause, the message \<open>Sprintf("caught panic")\<close> and the trace
  captured in \<open>RecoverPanic\<close> without its first two frames. Any other value gives a new
  error with no cause, whose message is the formatted value, trimmed the same way.
  So the slot holds an error after every call with a non-nil \<open>r\<close>.

  \<open>RecoverPanic\<close> runs in a deferred function while a panic unwinds, so the stack it
  captures holds its own frame, the deferred function and at least one more frame;
  and a \<open>*baseError\<close> wrapped inside a recovered foreign error is allocated.
\<close>

theorem C7_RecoverPanic_normalizes:
  assumes "3 \<le> length cs"
    and "\<forall>i s c a. r = AErr (Foreign i s c) \<and> As c = Some a \<longrightarrow> a < nobjs h"
  shows "(r = ANil \<longrightarrow> RecoverPanic sprintf h cs r slot = Inr (h, slot)) \<and>
         (\<forall>a. r = AErr (BaseErr a) \<longrightarrow>
            RecoverPanic sprintf h cs r slot = Inr (h, Some (BaseErr a))) \<and>
         (\<forall>i s c. r = AErr (Foreign i s c) \<longrightarrow>
            (\<exists>h'. RecoverPanic sprintf h cs r slot = Inr (h', Some (BaseErr (nobjs h))) \<and>
                  nobjs h' = Suc (nobjs h) \<and>
                  cause (objs h' (nobjs h)) = Some (Foreign i s c) \<and>
                  msg (objs h' (nobjs h)) = sprintf ''caught panic'' [] \<and>
                  stacktrace (objs h' (nobjs h)) = drop 2 (getStack 0 cs))) \<and>
         (r \<noteq> ANil \<and> (\<forall>e. r \<noteq> AErr e) \<longrightarrow>
            (\<exists>h'. RecoverPanic sprintf h cs r slot = Inr (h', Some (BaseErr (nobjs h))) \<and>
                  nobjs h' = Suc (nobjs h) \<and>
                  cause (objs h' (nobjs h)) = None \<and>
                  msg (objs h' (nobjs h)) = sprintf (sprintf ''caught panic: %v'' [r]) [] \<and>
                  stacktrace (objs h' (nobjs h)) = drop 2 (getStack 0 cs))) \<and>
         (r \<noteq> ANil \<longrightarrow> (\<exists>h' e. RecoverPanic sprintf h cs r slot = Inr (h', Some e)))"
proof -
  have 1: "r = ANil \<longrightarrow> RecoverPanic sprintf h cs r slot = Inr (h, slot)"
    by (simp add: RecoverPanic_nil)
  have 2: "\<forall>a. r = AErr (BaseErr a) \<longrightarrow>
            RecoverPanic sprintf h cs r slot = Inr (h, Some (BaseErr a))"
    by (simp add: RecoverPanic_base)
  have 3: "\<forall>i s c. r = AErr (Foreign i s c) \<longrightarrow>
            (\<exists>h'. RecoverPanic sprintf h cs r slot = Inr (h', Some (BaseErr (nobjs h))) \<and>
                  nobjs h' = Suc (nobjs h) \<and>
                  cause (objs h' (nobjs h)) = Some (Foreign i s c) \<and>
                  msg (objs h' (nobjs h)) = sprintf ''caught panic'' [] \<and>
                  stacktrace (objs h' (nobjs h)) = drop 2 (getStack 0 cs))"
  proof (intro allI impI)
    fix i s c
    assume r: "r = AErr (Foreign i s c)"
    with assms(2) have "\<forall>a. As c = Some a \<longrightarrow> a < nobjs h" by simp
    from RecoverPanic_foreign[OF assms(1) this, of sprintf i s slot] r
    show "\<exists>h'. RecoverPanic sprintf h cs r slot = Inr (h', Some (BaseErr (nobjs h))) \<and>
                  nobjs h' = Suc (nobjs h) \<and>
                  cause (objs h' (nobjs h)) = Some (Foreign i s c) \<and>
                  msg (objs h' (nobjs h)) = sprintf ''caught panic'' [] \<and>
                  stacktrace (objs h' (nobjs h)) = drop 2 (getStack 0 cs)"
      by simp
  qed
  have 4: "r \<noteq> ANil \<and> (\<forall>e. r \<noteq> AErr e) \<longrightarrow>
            (\<exists>h'. RecoverPanic sprintf h cs r slot = Inr (h', Some (BaseErr (nobjs h))) \<and>
                  nobjs h' = Suc (nobjs h) \<and>
                  cause (objs h' (nobjs h)) = None \<and>
                  msg (objs h' (nobjs h)) = sprintf (sprintf ''caught panic: %v'' [r]) [] \<and>
                  stacktrace (objs h' (nobjs h)) = drop 2 (getStack 0 cs))"
    using RecoverPanic_value[OF assms(1), of r sprintf h slot] by blast
  have 5: "r \<noteq> ANil \<longrightarrow> (\<exists>h' e. RecoverPanic sprintf h cs r slot = Inr (h', Some e))"
  proof
    assume nn: "r \<noteq> ANil"
    show "\<exists>h' e. RecoverPanic sprintf h cs r slot = Inr (h', Some e)"
    proof (cases "\<exists>e. r = AErr e")
      case True
      then obtain e where e: "r = AErr e" by blast
      show ?thesis
      proof (cases e)
        case (BaseErr a)
        with e 2 show ?thesis by blast
      next
        case (Foreign i s c)
        with e 3 show ?thesis by blast
      qed
    next
      case False
      with nn 4 show ?thesis by blast
    qed
  qed
  from 1 2 3 4 5 show ?thesis by blast
qed
theorem C7_RecoverPanic_normalizes_witness:
  "3 \<le> length stack_panic \<and>
   (\<exists>h'. RecoverPanic Sprintf_example empty_heap stack_panic (AStr ''boom'') None =
            Inr (h', Some (BaseErr 0)) \<and>
          msg (objs h' 0) = ''caught panic: boom'' \<and>
          map Function (stacktrace (objs h' 0)) =
            [''runtime.gopanic'', ''main.run'', ''main.main'', ''runtime.main'']) \<and>
   (\<exists>h'. RecoverPanic Sprintf_example empty_heap stack_panic
            (AErr (Foreign 7 ''unexpected EOF'' None)) None = Inr (h', Some (BaseErr 0)) \<and>
          msg (objs h' 0) = ''caught panic'' \<and>
          cause (objs h' 0) = Some (Foreign 7 ''unexpected EOF'' None)) \<and>
   RecoverPanic Sprintf_example heap_e1 stack_panic (AErr (BaseErr 0)) None =
     Inr (heap_e1, Some (BaseErr 0)) \<and>
   RecoverPanic Sprintf_example heap_e1 stack_panic ANil None = Inr (heap_e1, None)"
proof -
  have len: "3 \<le> length stack_panic" by (simp add: stack_panic_def)
  have st: "map Function (drop 2 (getStack 0 stack_panic)) =
      [''runtime.gopanic'', ''main.run'', ''main.main'', ''runtime.main'']"
    by (simp add: getStack_0 stack_panic_def)
  have n0: "nobjs empty_heap = 0" by (simp add: empty_heap_def)
  have v1: "\<forall>i s c a. AStr ''boom'' = AErr (Foreign i s c) \<and> As c = Some a \<longrightarrow> a < nobjs empty_heap"
    by simp
  have v2: "\<forall>i s c a. AErr (Foreign 7 ''unexpected EOF'' None) = AErr (Foreign i s c) \<and> As c = Some a
      \<longrightarrow> a < nobjs empty_heap"
    by auto
  have v3: "\<forall>i s c a. AErr (BaseErr 0) = AErr (Foreign i s c) \<and> As c = Some a \<longrightarrow> a < nobjs heap_e1"
    by simp
  have v4: "\<forall>i s c a. ANil = AErr (Foreign i s c) \<and> As c = Some a \<longrightarrow> a < nobjs heap_e1"
    by simp
  from C7_RecoverPanic_normalizes[OF len v1, of Sprintf_example None]
  have A: "\<exists>h'. RecoverPanic Sprintf_example empty_heap stack_panic (AStr ''boom'') None =
            Inr (h', Some (BaseErr 0)) \<and>
          msg (objs h' 0) = ''caught panic: boom'' \<and>
          map Function (stacktrace (objs h' 0)) =
            [''runtime.gopanic'', ''main.run'', ''main.main'', ''runtime.main'']"
    using st by (auto simp: n0)
  from C7_RecoverPanic_normalizes[OF len v2, of Sprintf_example None]
  have B: "\<exists>h'. RecoverPanic Sprintf_example empty_heap stack_panic
            (AErr (Foreign 7 ''unexpected EOF'' None)) None = Inr (h', Some (BaseErr 0)) \<and>
          msg (objs h' 0) = ''caught panic'' \<and>
          cause (objs h' 0) = Some (Foreign 7 ''unexpected EOF'' None)"
    by (auto simp: n0)
  from C7_RecoverPanic_normalizes[OF len v3, of Sprintf_example None]
  have C: "RecoverPanic Sprintf_example heap_e1 stack_panic (AErr (BaseErr 0)) None =
     Inr (heap_e1, Some (BaseErr 0))"
    by simp
  from C7_RecoverPanic_normalizes[OF len v4, of Sprintf_example None]
  have D: "RecoverPanic Sprintf_example heap_e1 stack_panic ANil None = Inr (heap_e1, None)"
    by simp
  from len A B C D show ?thesis by blast
qed

subsection \<open>Well-founded cause chains\<close>

lemma chain_ok_empty: "chain_ok empty_heap"
  by (simp add: chain_ok_def empty_heap_def)

lemma chain_ok_alloc:
  assumes "chain_ok h" and "\<forall>b. As (cause e) = Some b \<longrightarrow> b < nobjs h"
  shows "chain_ok (h\<lparr>objs := (objs h)(nobjs h := e), nobjs := Suc (nobjs h)\<rparr>)"
    and "chain_ok (h\<lparr>objs := (objs h)(nobjs h := e), nobjs := Suc (nobjs h),
                      maps := ms, nmaps := k\<rparr>)"
  using assms by (auto simp: chain_ok_def less_Suc_eq)

lemma chain_ok_New: "chain_ok h \<Longrightarrow> chain_ok (fst (New sprintf h cs m args))"
  by (simp add: New_result chain_ok_alloc)

lemma chain_ok_NewWithType:
  "chain_ok h \<Longrightarrow> chain_ok (fst (NewWithType sprintf h cs m tag args))"
  by (simp add: NewWithType_result chain_ok_alloc)

lemma chain_ok_NewSentinel: "chain_ok h \<Longrightarrow> chain_ok (fst (NewSentinel h tag m))"
  by (simp add: NewSentinel_result chain_ok_alloc)

lemma chain_ok_Wrap:
  assumes "chain_ok h" and "Wrap sprintf h cs err m args = Inr (h', w)"
  shows "chain_ok h'"
  using assms
  by (auto simp: Wrap_result chain_ok_def less_Suc_eq split: option.splits if_splits)

lemma chain_ok_W:
  assumes "chain_ok h" and "W h cs err = Inr (h', w)"
  shows "chain_ok h'"
  using assms
  by (auto simp: W_result chain_ok_def less_Suc_eq split: option.splits if_splits)

lemma chain_ok_WrapWithType:
  assumes "chain_ok h" and "WrapWithType sprintf h cs err m tag args = Inr (h', w)"
  shows "chain_ok h'"
  using assms
  by (auto simp: WrapWithType_result chain_ok_def less_Suc_eq split: option.splits if_splits)

lemma chain_ok_SentinelWithStack:
  assumes "chain_ok h" and "SentinelWithStack h cs err = Inr (h', w)"
  shows "chain_ok h'"
proof (cases "As err")
  case None
  with assms show ?thesis
    by (auto simp: SentinelWithStack_def alloc_obj_def alloc_map_def Let_def chain_ok_def
        less_Suc_eq)
next
  case (Some a)
  show ?thesis
  proof (cases "a < nobjs h")
    case True
    with assms Some show ?thesis
      by (auto simp: SentinelWithStack_base chain_ok_def less_Suc_eq split: if_splits)
  next
    case False
    with assms(2) Some show ?thesis by (simp add: SentinelWithStack_def deref_def)
  qed
qed

lemma chain_ok_WithMetadata:
  assumes "chain_ok h" and "WithMetadata h a meta = Inr (h', w)"
  shows "chain_ok h'"
  using assms
  by (auto simp: WithMetadata_result chain_ok_def split: if_splits option.splits)

lemma chain_ok_trim_two:
  assumes "chain_ok h" and "trim_two h a = Inr h'"
  shows "chain_ok h'"
  using assms by (auto simp: trim_two_def Let_def chain_ok_def split: if_splits)

lemma chain_ok_RecoverPanic:
  assumes "chain_ok h" and "RecoverPanic sprintf h cs r slot = Inr (h', slot')"
  shows "chain_ok h'"
proof (cases r)
  case ANil
  with assms show ?thesis by (simp add: RecoverPanic_def)
next
  case (AErr e)
  show ?thesis
  proof (cases e)
    case (BaseErr a)
    with AErr assms show ?thesis by (simp add: RecoverPanic_def)
  next
    case (Foreign i s c)
    with AErr assms(2) obtain h1 w where
      1: "Wrap sprintf h cs (Some (Foreign i s c)) ''caught panic'' [] = Inr (h1, w)"
      and 2: "trim_two h1 w = Inr h'"
      by (auto simp: RecoverPanic_def split: sum.splits)
    from chain_ok_trim_two[OF chain_ok_Wrap[OF assms(1) 1] 2] show ?thesis .
  qed
next
  case (AStr x)
  with assms(2) have "trim_two (fst (New sprintf h cs (sprintf ''caught panic: %v'' [r]) []))
      (nobjs h) = Inr h'"
    by (auto simp: RecoverPanic_def New_result split: sum.splits)
  from chain_ok_trim_two[OF chain_ok_New[OF assms(1)] this] show ?thesis .
next
  case (AInt x)
  with assms(2) have "trim_two (fst (New sprintf h cs (sprintf ''caught panic: %v'' [r]) []))
      (nobjs h) = Inr h'"
    by (auto simp: RecoverPanic_def New_result split: sum.splits)
  from chain_ok_trim_two[OF chain_ok_New[OF assms(1)] this] show ?thesis .
next
  case (ABool x)
  with assms(2) have "trim_two (fst (New sprintf h cs (sprintf ''caught panic: %v'' [r]) []))
      (nobjs h) = Inr h'"
    by (auto simp: RecoverPanic_def New_result split: sum.splits)
  from chain_ok_trim_two[OF chain_ok_New[OF assms(1)] this] show ?thesis .
next
  case (AMap x)
  with assms(2) have "trim_two (fst (New sprintf h cs (sprintf ''caught panic: %v'' [r]) []))
      (nobjs h) = Inr h'"
    by (auto simp: RecoverPanic_def New_result split: sum.splits)
  from chain_ok_trim_two[OF chain_ok_New[OF assms(1)] this] show ?thesis .
qed
subsection \<open>The display string\<close>

lemma Error_Foreign: "Error h (Foreign i s c) = Some (Inr s)"
  by (subst Error.simps) simp

lemma Error_BaseErr:
  assumes "a < nobjs h"
  shows "Error h (BaseErr a) =
           (case cause (objs h a) of
              None \<Rightarrow> Some (Inr (ownMsg (objs h a)))
            | Some c \<Rightarrow>
                Option.bind (Error h c)
                  (\<lambda>r. case r of
                          Inl p \<Rightarrow> Some (Inl p)
                        | Inr s \<Rightarrow> Some (Inr (ownMsg (objs h a) @ '' => '' @ s))))"
  using assms by (subst Error.simps) (simp add: deref_def)

lemma Error_defined:
  assumes "chain_ok h"
  shows "a < nobjs h \<Longrightarrow> \<exists>d. Error h (BaseErr a) = Some (Inr d)"
proof (induction a rule: less_induct)
  case (less a)
  show ?case
  proof (cases "cause (objs h a)")
    case None
    with less.prems show ?thesis by (simp add: Error_BaseErr)
  next
    case (Some c)
    show ?thesis
    proof (cases c)
      case (BaseErr b)
      with Some less.prems assms have "b < a" by (auto simp: chain_ok_def)
      with less.IH[of b] less.prems obtain d where "Error h (BaseErr b) = Some (Inr d)"
        by auto
      with Some BaseErr less.prems show ?thesis by (simp add: Error_BaseErr)
    next
      case (Foreign i s c')
      with Some less.prems show ?thesis by (simp add: Error_BaseErr Error_Foreign)
    qed
  qed
qed

lemma Error_old_empty_trace:
  assumes "a < nobjs h" and "stacktrace (objs h a) = []"
  shows "Error_old h (BaseErr a) = Some (Inl IndexOutOfRange)"
  using assms by (subst Error_old.simps) (simp add: deref_def)

lemma heap_e3_facts:
  "nobjs heap_e3 = 3"
  "objs heap_e3 0 = \<lparr>cause = None, msg = ''disk full'', typeStr = '''',
      stacktrace = getStack 0 stack_save, metadata = Some 0\<rparr>"
  "objs heap_e3 (Suc 0) = \<lparr>cause = Some (BaseErr 0), msg = ''save failed'', typeStr = ''IOError'',
      stacktrace = getStack 0 stack_save, metadata = Some 0\<rparr>"
  "objs heap_e3 2 = \<lparr>cause = Some (BaseErr (Suc 0)), msg = ''request failed'',
      typeStr = ''IOError'', stacktrace = getStack 0 stack_handle, metadata = Some 0\<rparr>"
  by (simp_all add: heap_e3_def heap_e2_def heap_e1_def Wrap_result WrapWithType_result
      New_result empty_heap_def)

lemma chain_ok_heap_e3: "chain_ok heap_e3"
proof -
  have 1: "chain_ok heap_e1"
    unfolding heap_e1_def by (rule chain_ok_New[OF chain_ok_empty])
  have n1: "nobjs heap_e1 = Suc 0"
    by (simp add: heap_e1_def New_result empty_heap_def)
  have "WrapWithType Sprintf_example heap_e1 stack_save (Some (BaseErr 0))
      ''save failed'' ''IOError'' [] = Inr (heap_e2, Suc 0)"
    by (simp add: heap_e2_def WrapWithType_result n1)
  from chain_ok_WrapWithType[OF 1 this] have 2: "chain_ok heap_e2" .
  have n2: "nobjs heap_e2 = Suc (Suc 0)"
    by (simp add: heap_e2_def WrapWithType_result n1)
  have "Wrap Sprintf_example heap_e2 stack_handle (Some (BaseErr (Suc 0)))
      ''request failed'' [] = Inr (heap_e3, Suc (Suc 0))"
    by (simp add: heap_e3_def Wrap_result n2)
  from chain_ok_Wrap[OF 2 this] show ?thesis .
qed

lemma chain_ok_heap_sentinel: "chain_ok heap_sentinel"
  unfolding heap_sentinel_def by (rule chain_ok_NewSentinel[OF chain_ok_empty])

text \<open>
  Claim C8, as the specification words it: a non-empty message is appended in
  brackets. The fresh sentinel \<open>NewSentinel("ErrNotFound", "not found")\<close> displays as
  \<open>[ErrNotFound] not found\<close>: the brackets are around the context, the message follows
  them bare, and \<open>[not found]\<close> occurs nowhere in the string.
\<close>

theorem C8_message_in_brackets_counterexample:
  "msg (objs heap_sentinel 0) = ''not found'' \<and>
   Error heap_sentinel (BaseErr 0) = Some (Inr ''[ErrNotFound] not found'') \<and>
   \<not> sublist (''['' @ msg (objs heap_sentinel 0) @ '']'') ''[ErrNotFound] not found''"
  by (simp add: Error_BaseErr heap_sentinel_facts ownMsg_def contextMsg_def
      sublist_Cons_right)

text \<open>
  Claim C8, amended: \<open>Error()\<close> returns a string for every error of a heap whose cause
  chains are well founded, also when the trace is empty. The context is
  \<open>package.function\<close> of the first frame when there is one, with the type tag, when
  there is one, put before it and joined by \<open>@\<close>; with no frame the context is the type
  tag alone. An empty message leaves the context as the string; a non-empty message
  gives \<open>[context] message\<close>, the brackets around the context. When there is a cause
  the string continues with \<open> => \<close> and the display string of the cause, so the message
  of a wrapper stands before everything its cause displays.
\<close>

theorem C8_Error_display:
  assumes "chain_ok h" and "a < nobjs h" and "e = objs h a"
  shows "\<exists>d. Error h (BaseErr a) = Some (Inr d) \<and>
           (cause e = None \<longrightarrow> d = ownMsg e) \<and>
           (\<forall>c. cause e = Some c \<longrightarrow>
              (\<exists>dc. Error h c = Some (Inr dc) \<and> d = ownMsg e @ '' => '' @ dc)) \<and>
           (msg e = '''' \<longrightarrow> ownMsg e = contextMsg e) \<and>
           (msg e \<noteq> '''' \<longrightarrow> ownMsg e = ''['' @ contextMsg e @ ''] '' @ msg e) \<and>
           (stacktrace e = [] \<longrightarrow> contextMsg e = typeStr e) \<and>
           (\<forall>f fs. stacktrace e = f # fs \<and> typeStr e = '''' \<longrightarrow>
              contextMsg e = Package f @ ''.'' @ FuncName f) \<and>
           (\<forall>f fs. stacktrace e = f # fs \<and> typeStr e \<noteq> '''' \<longrightarrow>
              contextMsg e = typeStr e @ ''@'' @ Package f @ ''.'' @ FuncName f)"
proof -
  from Error_defined[OF assms(1,2)] obtain d where d: "Error h (BaseErr a) = Some (Inr d)"
    by blast
  have 1: "cause e = None \<longrightarrow> d = ownMsg e"
    using d assms(2,3) by (auto simp: Error_BaseErr)
  have 2: "\<forall>c. cause e = Some c \<longrightarrow>
              (\<exists>dc. Error h c = Some (Inr dc) \<and> d = ownMsg e @ '' => '' @ dc)"
  proof (intro allI impI)
    fix c assume c: "cause e = Some c"
    show "\<exists>dc. Error h c = Some (Inr dc) \<and> d = ownMsg e @ '' => '' @ dc"
    proof (cases "Error h c")
      case None
      with d c assms(2,3) show ?thesis by (simp add: Error_BaseErr)
    next
      case (Some r)
      show ?thesis
      proof (cases r)
        case (Inl p)
        with Some d c assms(2,3) show ?thesis by (simp add: Error_BaseErr)
      next
        case (Inr dc)
        with Some d c assms(2,3) show ?thesis by (simp add: Error_BaseErr)
      qed
    qed
  qed
  have 3: "msg e = '''' \<longrightarrow> ownMsg e = contextMsg e"
    "msg e \<noteq> '''' \<longrightarrow> ownMsg e = ''['' @ contextMsg e @ ''] '' @ msg e"
    by (simp_all add: ownMsg_def)
  have 4: "stacktrace e = [] \<longrightarrow> contextMsg e = typeStr e"
    "\<forall>f fs. stacktrace e = f # fs \<and> typeStr e = '''' \<longrightarrow>
              contextMsg e = Package f @ ''.'' @ FuncName f"
    "\<forall>f fs. stacktrace e = f # fs \<and> typeStr e \<noteq> '''' \<longrightarrow>
              contextMsg e = typeStr e @ ''@'' @ Package f @ ''.'' @ FuncName f"
    by (auto simp: contextMsg_def)
  show ?thesis
    by (rule exI[of _ d]) (intro conjI d 1 2 3 4)
qed
lemma heap_e3_ownMsg:
  "ownMsg (objs heap_e3 0) = ''[main.save] disk full''"
  "ownMsg (objs heap_e3 (Suc 0)) = ''[IOError@main.save] save failed''"
  "ownMsg (objs heap_e3 2) = ''[IOError@main.handle] request failed''"
  by (simp_all add: heap_e3_facts ownMsg_def contextMsg_def getStack_stack_save
      getStack_stack_handle Package_def FuncName_def HasPrefix_def slice_def slice_from_def)

theorem C8_Error_display_witness:
  "chain_ok heap_e3 \<and> 2 < nobjs heap_e3 \<and>
   Error heap_e3 (BaseErr 2) =
     Some (Inr ''[IOError@main.handle] request failed => [IOError@main.save] save failed => [main.save] disk full'') \<and>
   chain_ok heap_sentinel \<and> 0 < nobjs heap_sentinel \<and>
   Error heap_sentinel (BaseErr 0) = Some (Inr ''[ErrNotFound] not found'')"
proof -
  note ok = chain_ok_heap_e3
  have n: "0 < nobjs heap_e3" "Suc 0 < nobjs heap_e3" "2 < nobjs heap_e3"
    by (simp_all add: heap_e3_facts)
  from C8_Error_display[OF ok n(1) refl]
  have d0: "Error heap_e3 (BaseErr 0) = Some (Inr ''[main.save] disk full'')"
    by (auto simp: heap_e3_facts(2) heap_e3_ownMsg[simplified heap_e3_facts])
  from C8_Error_display[OF ok n(2) refl] d0
  have d1: "Error heap_e3 (BaseErr (Suc 0)) =
      Some (Inr ''[IOError@main.save] save failed => [main.save] disk full'')"
    by (auto simp: heap_e3_facts(3) heap_e3_ownMsg[simplified heap_e3_facts])
  from C8_Error_display[OF ok n(3) refl] d1
  have d2: "Error heap_e3 (BaseErr 2) =
      Some (Inr ''[IOError@main.handle] request failed => [IOError@main.save] save failed => [main.save] disk full'')"
    by (auto simp: heap_e3_facts(4) heap_e3_ownMsg[simplified heap_e3_facts])
  have ns: "0 < nobjs heap_sentinel" by (simp add: heap_sentinel_facts)
  from C8_Error_display[OF chain_ok_heap_sentinel ns refl]
  have s: "Error heap_sentinel (BaseErr 0) = Some (Inr ''[ErrNotFound] not found'')"
    by (auto simp: heap_sentinel_facts(3) ownMsg_def contextMsg_def)
  from ok n(3) d2 chain_ok_heap_sentinel ns s show ?thesis by (intro conjI)
qed

subsection \<open>Every error has a metadata map\<close>

lemma meta_set_empty: "meta_set empty_heap"
  by (simp add: meta_set_def empty_heap_def)

lemma meta_set_New: "meta_set h \<Longrightarrow> meta_set (fst (New sprintf h cs m args))"
  by (auto simp: New_result meta_set_def less_Suc_eq)

lemma meta_set_NewWithType:
  "meta_set h \<Longrightarrow> meta_set (fst (NewWithType sprintf h cs m tag args))"
  by (auto simp: NewWithType_result meta_set_def less_Suc_eq)

lemma meta_set_NewSentinel: "meta_set h \<Longrightarrow> meta_set (fst (NewSentinel h tag m))"
  by (auto simp: NewSentinel_result meta_set_def less_Suc_eq)

lemma meta_set_Wrap:
  assumes "meta_set h" and "Wrap sprintf h cs err m args = Inr (h', w)"
  shows "meta_set h'"
  using assms
  by (auto simp: Wrap_result meta_set_def less_Suc_eq split: option.splits if_splits)

lemma meta_set_W:
  assumes "meta_set h" and "W h cs err = Inr (h', w)"
  shows "meta_set h'"
  using assms
  by (auto simp: W_result meta_set_def less_Suc_eq split: option.splits if_splits)

lemma meta_set_WrapWithType:
  assumes "meta_set h" and "WrapWithType sprintf h cs err m tag args = Inr (h', w)"
  shows "meta_set h'"
  using assms
  by (auto simp: WrapWithType_result meta_set_def less_Suc_eq split: option.splits if_splits)

lemma meta_set_SentinelWithStack:
  assumes "meta_set h" and "SentinelWithStack h cs err = Inr (h', w)"
  shows "meta_set h'"
proof (cases "As err")
  case None
  with assms show ?thesis
    by (auto simp: SentinelWithStack_def alloc_obj_def alloc_map_def Let_def meta_set_def
        less_Suc_eq)
next
  case (Some a)
  show ?thesis
  proof (cases "a < nobjs h")
    case True
    with assms Some show ?thesis
      by (auto simp: SentinelWithStack_base meta_set_def less_Suc_eq split: if_splits)
  next
    case False
    with assms(2) Some show ?thesis by (simp add: SentinelWithStack_def deref_def)
  qed
qed

lemma meta_set_WithMetadata:
  assumes "meta_set h" and "WithMetadata h a meta = Inr (h', w)"
  shows "meta_set h'"
  using assms
  by (auto simp: WithMetadata_result meta_set_def split: if_splits option.splits)

lemma meta_set_trim_two:
  assumes "meta_set h" and "trim_two h a = Inr h'"
  shows "meta_set h'"
  using assms by (auto simp: trim_two_def Let_def meta_set_def split: if_splits)

end
